theory Spec2Isabelle
  imports Complex_Main
begin

section \<open>Errors and Python helpers\<close>

text \<open>
  Exceptions of the Python code are values.  \<open>ValueError\<close> is what \<open>int(...)\<close>
  raises on text that is no integer literal.  \<open>OverflowError\<close> is raised by the date
  arithmetic when it leaves the range of \<open>datetime.date\<close>, by \<open>sqlite3\<close> when a
  Python int given to a statement does not fit a signed 64-bit integer, and by the
  conversion of an int too large for a float.  \<open>RuntimeError\<close>
  and \<open>BrowserError\<close> carry the message of an exception raised by the scraper
  or by the browser automation library.
\<close>

datatype error = ValueError | OverflowError | RuntimeError string | BrowserError string

text \<open>
  \<open>int(s)\<close> for a \<open>str\<close>.  Characters are the code points below 256.  The white
  space dropped at both ends is what \<open>PyLong_FromString\<close> skips (tab, line feed,
  vertical tab, form feed, carriage return, space) and, of the code points above 127,
  those that are first rewritten to a space (U+0085 and U+00A0); the separators
  U+001C to U+001F are not dropped.  Then one sign is allowed, then decimal digits,
  where single underscores may stand between digits.  More than 4300 digits exceed the
  default limit of the conversion, which is a \<open>ValueError\<close> as well.
\<close>

definition py_isspace :: "char \<Rightarrow> bool" where
  "py_isspace c = ((of_char c :: nat) \<in> {9, 10, 11, 12, 13, 32, 133, 160})"

definition py_strip :: "string \<Rightarrow> string" where
  "py_strip s = rev (dropWhile py_isspace (rev (dropWhile py_isspace s)))"

definition is_digit :: "char \<Rightarrow> bool" where
  "is_digit c = (48 \<le> (of_char c :: nat) \<and> (of_char c :: nat) \<le> 57)"

definition digit_val :: "char \<Rightarrow> int" where
  "digit_val c = of_char c - 48"

definition digits_value :: "string \<Rightarrow> int" where
  "digits_value ds = foldl (\<lambda>a c. 10 * a + digit_val c) 0 ds"

fun valid_decimal :: "string \<Rightarrow> bool" where
  "valid_decimal [] = False"
| "valid_decimal [c] = is_digit c"
| "valid_decimal (c # d # r) =
     (is_digit c \<and> (if d = CHR ''_'' then valid_decimal r else valid_decimal (d # r)))"

definition py_int :: "string \<Rightarrow> error + int" where
  "py_int s =
     (let t = py_strip s;
          neg = (case t of [] \<Rightarrow> False | c # _ \<Rightarrow> c = CHR ''-'');
          body = (case t of [] \<Rightarrow> []
                  | c # r \<Rightarrow> if c = CHR ''-'' \<or> c = CHR ''+'' then r else t)
      in if valid_decimal body \<and> length (filter is_digit body) \<le> 4300
         then (let v = digits_value (filter is_digit body)
               in Inr (if neg then - v else v))
         else Inl ValueError)"

subsection \<open>Substring tests and lower case\<close>

text \<open>
  Python's \<open>sub in s\<close> and JavaScript's \<open>s.includes(sub)\<close>, and \<open>str.lower()\<close> on the
  code points below 256.
\<close>

fun starts_with :: "string \<Rightarrow> string \<Rightarrow> bool" where
  "starts_with [] s = True"
| "starts_with (p # ps) [] = False"
| "starts_with (p # ps) (c # cs) = (p = c \<and> starts_with ps cs)"

fun contains :: "string \<Rightarrow> string \<Rightarrow> bool" where
  "contains sub [] = (sub = [])"
| "contains sub (c # cs) = (starts_with sub (c # cs) \<or> contains sub cs)"

definition py_lower_char :: "char \<Rightarrow> char" where
  "py_lower_char c =
     (let n = (of_char c :: nat)
      in if (65 \<le> n \<and> n \<le> 90) \<or> (192 \<le> n \<and> n \<le> 222 \<and> n \<noteq> 215)
         then (case c of Char b0 b1 b2 b3 b4 b5 b6 b7 \<Rightarrow> Char b0 b1 b2 b3 b4 True b6 b7)
         else c)"

definition py_lower :: "string \<Rightarrow> string" where
  "py_lower s = map py_lower_char s"

section \<open>IEEE doubles\<close>

text \<open>
  JavaScript numbers, Python floats and SQLite REALs are IEEE doubles.  Only values that
  are not negative are rounded here, so a number is a finite double (the rational it
  denotes), \<open>Infinity\<close> or \<open>NaN\<close>.  \<open>fl\<close> rounds a rational that is not negative to the
  nearest double, ties to the even significand, with gradual underflow below
  \<open>2^-1022\<close> and overflow to \<open>Infinity\<close>.
\<close>

function bit_length :: "int \<Rightarrow> int" where
  "bit_length n = (if n \<le> 0 then 0 else 1 + bit_length (n div 2))"
  by pat_completeness auto
termination
  by (relation "measure nat") auto

declare bit_length.simps [simp del]

definition pow2 :: "int \<Rightarrow> rat" where
  "pow2 e = (if 0 \<le> e then of_int (2 ^ nat e) else 1 / of_int (2 ^ nat (- e)))"

definition ilog2 :: "rat \<Rightarrow> int" where
  "ilog2 x = (let (a, b) = quotient_of x;
                  l = bit_length a - bit_length b
              in if pow2 l \<le> x then l else l - 1)"

definition round_half_even :: "rat \<Rightarrow> int" where
  "round_half_even y =
     (let f = \<lfloor>y\<rfloor>; r = y - of_int f
      in if r < 1 / 2 then f else if 1 / 2 < r then f + 1 else if even f then f else f + 1)"

datatype jsnum = Fin rat | PosInf | NaN

definition fl :: "rat \<Rightarrow> jsnum" where
  "fl x =
     (if x = 0 then Fin 0
      else (let e = max (ilog2 x - 52) (- 1074);
                m = round_half_even (x / pow2 e);
                v = of_int m * pow2 e
            in if pow2 1024 \<le> v then PosInf else Fin v))"

text \<open>
  The double nearest to a whole number, which is whole again, and whether there is a
  finite one: \<open>float(n)\<close> raises \<open>OverflowError\<close> when there is none, from
  \<open>2^1024 - 2^970\<close> on.  A 64-bit integer always has one; where there is none,
  \<open>to_double\<close> leaves the number as it is.
\<close>

definition to_double :: "int \<Rightarrow> int" where
  "to_double n = (case fl (of_int \<bar>n\<bar>) of Fin r \<Rightarrow> sgn n * \<lfloor>r\<rfloor> | _ \<Rightarrow> n)"

definition float_ok :: "int \<Rightarrow> bool" where
  "float_ok n = (case fl (of_int \<bar>n\<bar>) of Fin r \<Rightarrow> True | _ \<Rightarrow> False)"

section \<open>The progress ledger (archived/src/database.py)\<close>

subsection \<open>Tables\<close>

text \<open>
  One record per table row, one field per column.  A calendar date is its proleptic
  Gregorian ordinal (\<open>date.toordinal()\<close>, 1 for 0001-01-01), so that
  \<open>date - timedelta(days=1)\<close> is the ordinal minus one; the ISO text the code stores
  is a one-to-one rendering of it.  A timestamp is the value \<open>CURRENT_TIMESTAMP\<close> has
  when the statement runs, in whole seconds.

  An \<open>INTEGER\<close> of SQLite is a signed 64-bit integer, and \<open>sqlite3\<close> raises
  \<open>OverflowError\<close> when a Python int given to a statement is outside that range.
  A position and a number of pages are Python ints, as annotated.  A percentage is a
  Python number: an int (the scraper receives whole JavaScript numbers below \<open>1e21\<close> as
  ints) or a float; a float is stored and returned and never computed with, so the
  type \<open>'p\<close> of floats is left open, and the column is taken to hold the number that
  was given to the statement.
\<close>

type_synonym date = int
type_synonym timestamp = nat

datatype 'p pynum = PyInt int | PyFloat 'p

definition sql_int :: "int \<Rightarrow> bool" where
  "sql_int n = (- (2 ^ 63) \<le> n \<and> n < 2 ^ 63)"

definition sql_number :: "'p pynum \<Rightarrow> bool" where
  "sql_number v = (case v of PyInt n \<Rightarrow> sql_int n | PyFloat x \<Rightarrow> True)"

record book_row =
  title :: string
  authors :: "string list"
  total_pages :: "int option"
  cover_url :: "string option"
  last_updated :: timestamp

record 'p progress_row =
  progress_asin :: string
  position :: int
  percent_complete :: "'p pynum"
  recorded_at :: timestamp

text \<open>
  \<open>pages_read\<close> is a sum SQLite computes.  While it is in the 64-bit range it is an
  \<open>INTEGER\<close>; a sum that leaves the range is computed in doubles and kept as a \<open>REAL\<close>,
  which Python reads as a float.  Such a \<open>REAL\<close> is a whole number, so the column is an
  \<open>int\<close> here: an \<open>INTEGER\<close> when \<open>sql_int\<close> holds of it and a \<open>REAL\<close> otherwise.
\<close>

record stats_row =
  pages_read :: int
  goal_met_at :: "timestamp option"
  stats_updated :: timestamp

text \<open>
  \<open>reading_progress\<close> is kept in the order of the autoincremented \<open>id\<close>: a new row
  goes to the end.
\<close>

record 'p ledger =
  books :: "string \<rightharpoonup> book_row"
  reading_progress :: "'p progress_row list"
  daily_stats :: "date \<rightharpoonup> stats_row"
  settings_table :: "string \<rightharpoonup> string"

text \<open>The part of \<open>config.settings\<close> the ledger and the scraper read.\<close>

record config =
  daily_page_goal :: int
  day_reset_hour :: int
  amazon_email :: string
  amazon_password :: string

text \<open>
  What \<open>datetime.now()\<close> and \<open>CURRENT_TIMESTAMP\<close> give during one call: the
  local date, hour and minute, and the SQL timestamp.
\<close>

record clock =
  now_date :: date
  now_hour :: nat
  now_minute :: nat
  now_stamp :: timestamp

text \<open>The database \<open>init_db\<close> leaves behind on an empty file.\<close>

definition init_db :: "'p ledger" where
  "init_db = \<lparr> books = Map.empty, reading_progress = [], daily_stats = Map.empty,
               settings_table = [''daily_page_goal'' \<mapsto> ''30'', ''day_reset_hour'' \<mapsto> ''4''] \<rparr>"

subsection \<open>Settings and the day key\<close>

definition get_setting :: "'p ledger \<Rightarrow> string \<Rightarrow> string option" where
  "get_setting db key = settings_table db key"

definition set_setting :: "'p ledger \<Rightarrow> string \<Rightarrow> string \<Rightarrow> 'p ledger" where
  "set_setting db key v = db\<lparr>settings_table := (settings_table db)(key \<mapsto> v)\<rparr>"

text \<open>
  \<open>int(get_setting(key) or fallback)\<close>: a missing row and an empty text are both
  falsy, and then the integer of the configuration is taken as it is.
\<close>

definition setting_int :: "'p ledger \<Rightarrow> string \<Rightarrow> int \<Rightarrow> error + int" where
  "setting_int db key fallback =
     (case get_setting db key of
        None \<Rightarrow> Inr fallback
      | Some v \<Rightarrow> if v = [] then Inr fallback else py_int v)"

definition get_today_key :: "config \<Rightarrow> 'p ledger \<Rightarrow> clock \<Rightarrow> error + date" where
  "get_today_key cfg db now =
     (case setting_int db ''day_reset_hour'' (day_reset_hour cfg) of
        Inl e \<Rightarrow> Inl e
      | Inr reset_hour \<Rightarrow>
          if int (now_hour now) < reset_hour
          then (if now_date now - 1 < 1 then Inl OverflowError else Inr (now_date now - 1))
          else Inr (now_date now))"

subsection \<open>Books\<close>

text \<open>SQL \<open>COALESCE(a, b)\<close> on two nullable values.\<close>

definition coalesce :: "'a option \<Rightarrow> 'a option \<Rightarrow> 'a option" where
  "coalesce a b = (case a of Some v \<Rightarrow> Some v | None \<Rightarrow> b)"

text \<open>
  \<open>upsert_book\<close> runs one statement; \<open>total_pages\<close> is the only int it is given.
\<close>

definition upsert_book ::
  "'p ledger \<Rightarrow> timestamp \<Rightarrow> string \<Rightarrow> string \<Rightarrow> string list \<Rightarrow> int option \<Rightarrow> string option
     \<Rightarrow> error + 'p ledger" where
  "upsert_book db ts asin ttl auths pages cover =
     (if (case pages of None \<Rightarrow> False | Some n \<Rightarrow> \<not> sql_int n) then Inl OverflowError
      else (case books db asin of
        None \<Rightarrow>
          Inr (db\<lparr>books := (books db)(asin \<mapsto>
               \<lparr> title = ttl, authors = auths, total_pages = pages, cover_url = cover,
                 last_updated = ts \<rparr>)\<rparr>)
      | Some old \<Rightarrow>
          Inr (db\<lparr>books := (books db)(asin \<mapsto>
               \<lparr> title = ttl, authors = auths,
                 total_pages = coalesce pages (total_pages old),
                 cover_url = coalesce cover (cover_url old),
                 last_updated = ts \<rparr>)\<rparr>)))"

subsection \<open>Progress snapshots and the daily aggregate\<close>

text \<open>
  \<open>WHERE asin = ? ORDER BY recorded_at DESC LIMIT 1\<close>: a row of the book with the
  greatest \<open>recorded_at\<close>.  SQLite answers the query from the index
  \<open>idx_progress_asin_time\<close> on \<open>(asin, recorded_at DESC)\<close>, where entries of equal key
  follow one another by \<open>id\<close>: among the rows of equal \<open>recorded_at\<close> the one stored
  first is read.
\<close>

fun latest_row :: "'p progress_row list \<Rightarrow> 'p progress_row option" where
  "latest_row [] = None"
| "latest_row (r # rs) =
     (case latest_row rs of
        None \<Rightarrow> Some r
      | Some r' \<Rightarrow> if recorded_at r < recorded_at r' then Some r' else Some r)"

definition last_progress :: "'p ledger \<Rightarrow> string \<Rightarrow> int option" where
  "last_progress db asin =
     map_option position (latest_row (filter (\<lambda>r. progress_asin r = asin) (reading_progress db)))"

text \<open>
  The dictionary \<open>get_today_stats\<close> returns.  Python compares an int with a float
  exactly.  \<open>goal - pages_read\<close> is exact on two ints; when \<open>pages_read\<close> is a float
  the goal is first converted to a float, which raises \<open>OverflowError\<close> when it has
  none, and the difference is rounded.
\<close>

record today_stats =
  stats_date :: date
  stats_pages_read :: int
  stats_page_goal :: int
  stats_goal_met :: bool
  stats_goal_met_at :: "timestamp option"
  stats_pages_remaining :: int

definition py_minus :: "int \<Rightarrow> int \<Rightarrow> error + int" where
  "py_minus goal pages =
     (if sql_int pages then Inr (goal - pages)
      else if float_ok goal then Inr (to_double (to_double goal - to_double pages))
      else Inl OverflowError)"

definition get_today_stats :: "config \<Rightarrow> 'p ledger \<Rightarrow> clock \<Rightarrow> error + today_stats" where
  "get_today_stats cfg db now =
     (case get_today_key cfg db now of
        Inl e \<Rightarrow> Inl e
      | Inr today \<Rightarrow>
          (case setting_int db ''daily_page_goal'' (daily_page_goal cfg) of
             Inl e \<Rightarrow> Inl e
           | Inr goal \<Rightarrow>
               (case daily_stats db today of
                  Some row \<Rightarrow>
                    (case py_minus goal (pages_read row) of
                       Inl e \<Rightarrow> Inl e
                     | Inr left \<Rightarrow>
                         Inr \<lparr> stats_date = today, stats_pages_read = pages_read row,
                               stats_page_goal = goal, stats_goal_met = (pages_read row \<ge> goal),
                               stats_goal_met_at = goal_met_at row,
                               stats_pages_remaining = max 0 left \<rparr>)
                | None \<Rightarrow>
                    Inr \<lparr> stats_date = today, stats_pages_read = 0,
                          stats_page_goal = goal, stats_goal_met = False,
                          stats_goal_met_at = None,
                          stats_pages_remaining = goal \<rparr>)))"

text \<open>
  \<open>daily_stats.pages_read + ?\<close> in SQLite: the sum of two \<open>INTEGER\<close>s when it is
  in the 64-bit range; otherwise both are converted to doubles and added as doubles.
\<close>

definition sql_add :: "int \<Rightarrow> int \<Rightarrow> int" where
  "sql_add a b =
     (if sql_int a \<and> sql_int (a + b) then a + b
      else to_double (to_double a + to_double b))"

text \<open>
  \<open>INSERT INTO daily_stats ... ON CONFLICT(date) DO UPDATE SET pages_read =
  daily_stats.pages_read + ?\<close>: a new row has no \<open>goal_met_at\<close>; an old one keeps
  its own.
\<close>

definition add_pages :: "'p ledger \<Rightarrow> date \<Rightarrow> int \<Rightarrow> timestamp \<Rightarrow> 'p ledger" where
  "add_pages db day delta ts =
     (case daily_stats db day of
        None \<Rightarrow>
          db\<lparr>daily_stats := (daily_stats db)(day \<mapsto>
               \<lparr> pages_read = delta, goal_met_at = None, stats_updated = ts \<rparr>)\<rparr>
      | Some row \<Rightarrow>
          db\<lparr>daily_stats := (daily_stats db)(day \<mapsto>
               row\<lparr>pages_read := sql_add (pages_read row) delta, stats_updated := ts\<rparr>)\<rparr>)"

text \<open>\<open>UPDATE daily_stats SET goal_met_at = CURRENT_TIMESTAMP WHERE date = ?\<close>.\<close>

definition mark_goal_met :: "'p ledger \<Rightarrow> date \<Rightarrow> timestamp \<Rightarrow> 'p ledger" where
  "mark_goal_met db day ts =
     (case daily_stats db day of
        None \<Rightarrow> db
      | Some row \<Rightarrow> db\<lparr>daily_stats := (daily_stats db)(day \<mapsto> row\<lparr>goal_met_at := Some ts\<rparr>)\<rparr>)"

text \<open>
  \<open>record_progress\<close> writes through the connection \<open>conn\<close> it opened; the writes
  are committed when its \<open>with get_db()\<close> block ends, and dropped when an exception
  leaves the block, so an error stands for a ledger left as it was.  \<open>get_setting\<close>
  and \<open>get_today_stats\<close> open a connection of their own (\<open>get_db\<close> calls
  \<open>sqlite3.connect\<close> each time), so inside \<open>record_progress\<close> they read the
  committed database \<open>db\<close>, not the pending writes of \<open>conn\<close>.  The first \<open>INSERT\<close> is
  given the position and the percentage, the second the delta.
\<close>

definition record_progress ::
  "config \<Rightarrow> 'p ledger \<Rightarrow> clock \<Rightarrow> string \<Rightarrow> int \<Rightarrow> 'p pynum \<Rightarrow> error + 'p ledger" where
  "record_progress cfg db now asin pos percent =
     (case get_today_key cfg db now of
        Inl e \<Rightarrow> Inl e
      | Inr today \<Rightarrow>
          (let last = last_progress db asin
           in if \<not> (sql_int pos \<and> sql_number percent) then Inl OverflowError
              else
          (let conn = db\<lparr>reading_progress := reading_progress db @
                         [\<lparr> progress_asin = asin, position = pos, percent_complete = percent,
                            recorded_at = now_stamp now \<rparr>]\<rparr>
           in case last of
                None \<Rightarrow> Inr conn
              | Some last_position \<Rightarrow>
                  if pos > last_position
                  then (let pages_delta = pos - last_position
                        in if \<not> sql_int pages_delta then Inl OverflowError
                           else
                       (let conn' = add_pages conn today pages_delta (now_stamp now)
                        in case setting_int db ''daily_page_goal'' (daily_page_goal cfg) of
                             Inl e \<Rightarrow> Inl e
                           | Inr goal \<Rightarrow>
                               (case get_today_stats cfg db now of
                                  Inl e \<Rightarrow> Inl e
                                | Inr stats \<Rightarrow>
                                    if stats_pages_read stats \<ge> goal
                                       \<and> stats_goal_met_at stats = None
                                    then Inr (mark_goal_met conn' today (now_stamp now))
                                    else Inr conn')))
                  else Inr conn)))"

definition reset_daily_stats :: "'p ledger \<Rightarrow> 'p ledger" where
  "reset_daily_stats db = db\<lparr>daily_stats := Map.empty\<rparr>"

definition reset_all_progress :: "'p ledger \<Rightarrow> 'p ledger" where
  "reset_all_progress db = db\<lparr>reading_progress := [], daily_stats := Map.empty\<rparr>"


definition goal_met_at_on :: "'p ledger \<Rightarrow> date \<Rightarrow> timestamp option" where
  "goal_met_at_on db day = (case daily_stats db day of None \<Rightarrow> None | Some row \<Rightarrow> goal_met_at row)"

section \<open>The progress extractor (archived/src/scraper.py, the scripts given to page.evaluate)\<close>

subsection \<open>JavaScript numbers\<close>

text \<open>
  The scripts compute with doubles, and only values that are not negative occur.
  Division and multiplication round their exact result with \<open>fl\<close>.  \<open>Math.round\<close>
  rounds half up.  \<open>parseInt\<close> and \<open>parseFloat\<close> are only applied to the digits a
  \<open>\\d+\<close> group has captured, where both give the double nearest to the decimal
  number.
\<close>

definition js_div :: "jsnum \<Rightarrow> jsnum \<Rightarrow> jsnum" where
  "js_div a b =
     (case (a, b) of
        (Fin x, Fin y) \<Rightarrow> if y = 0 then (if x = 0 then NaN else PosInf) else fl (x / y)
      | (Fin x, PosInf) \<Rightarrow> Fin 0
      | (PosInf, Fin y) \<Rightarrow> PosInf
      | _ \<Rightarrow> NaN)"

definition js_mul :: "jsnum \<Rightarrow> jsnum \<Rightarrow> jsnum" where
  "js_mul a b =
     (case (a, b) of
        (Fin x, Fin y) \<Rightarrow> fl (x * y)
      | (Fin x, PosInf) \<Rightarrow> if x = 0 then NaN else PosInf
      | (PosInf, Fin y) \<Rightarrow> if y = 0 then NaN else PosInf
      | (PosInf, PosInf) \<Rightarrow> PosInf
      | _ \<Rightarrow> NaN)"

definition Math_round :: "jsnum \<Rightarrow> jsnum" where
  "Math_round a =
     (case a of Fin x \<Rightarrow> Fin (of_int \<lfloor>x + 1 / 2\<rfloor>) | PosInf \<Rightarrow> PosInf | NaN \<Rightarrow> NaN)"


definition parseFloat :: "string \<Rightarrow> jsnum" where
  "parseFloat ds = fl (of_int (digits_value ds))"

subsection \<open>The regular expressions\<close>

text \<open>
  A text is the list of its UTF-16 code units, taken here from the code points below
  256.  \<open>\\s\<close> is white space, \<open>\\d\<close> an ASCII digit, and under the flag \<open>i\<close> a letter
  of the pattern matches itself in either case.  In each pattern the classes that
  follow one another are disjoint, so the greedy match of a repetition is the only
  one: \<open>span_plus\<close> takes the longest run, which must not be empty.  \<open>search\<close> tries
  the start positions from left to right, as \<open>String.prototype.match\<close> does.
\<close>

definition js_isspace :: "char \<Rightarrow> bool" where
  "js_isspace c = ((of_char c :: nat) \<in> {9, 10, 11, 12, 13, 32, 160})"

definition js_trim :: "string \<Rightarrow> string" where
  "js_trim s = rev (dropWhile js_isspace (rev (dropWhile js_isspace s)))"



definition span_plus :: "(char \<Rightarrow> bool) \<Rightarrow> string \<Rightarrow> (string \<times> string) option" where
  "span_plus p s = (if takeWhile p s = [] then None else Some (takeWhile p s, dropWhile p s))"






definition percent_at :: "string \<Rightarrow> string option" where
  "percent_at s =
     (case span_plus is_digit s of
        None \<Rightarrow> None
      | Some (ds, r) \<Rightarrow> (case r of [] \<Rightarrow> None | c # _ \<Rightarrow> if c = CHR ''%'' then Some ds else None))"

fun search :: "(string \<Rightarrow> 'a option) \<Rightarrow> string \<Rightarrow> 'a option" where
  "search m [] = m []"
| "search m (c # cs) = (case m (c # cs) of Some r \<Rightarrow> Some r | None \<Rightarrow> search m cs)"

subsection \<open>Reader view: findPattern and the scan of the page\<close>

text \<open>
  What \<open>findPattern\<close> returns: \<open>{current, total, type}\<close> or \<open>{percent, type}\<close>.
\<close>

datatype found = Numeric jsnum jsnum string | PercentOnly jsnum


text \<open>The object the script returns; \<open>None\<close> is \<open>null\<close>.\<close>

record progress_info =
  info_current :: "jsnum option"
  info_total :: "jsnum option"
  info_percent :: "jsnum option"
  info_debug :: "(string \<times> string) list"

definition fill_result :: "found \<Rightarrow> (string \<times> string) list \<Rightarrow> progress_info" where
  "fill_result f dbg =
     (case f of
        Numeric c t _ \<Rightarrow>
          \<lparr> info_current = Some c, info_total = Some t,
            info_percent = Some (Math_round (js_mul (js_div c t) (Fin 100))), info_debug = dbg \<rparr>
      | PercentOnly p \<Rightarrow>
          \<lparr> info_current = Some p, info_total = Some (Fin 100), info_percent = Some p,
            info_debug = dbg \<rparr>)"




subsection \<open>Library view\<close>

text \<open>
  One element matched by \<open>[id^="library-item-option-"]\<close>, by what the script reads from
  it: its id, its \<open>aria-label\<close>, the \<open>textContent\<close> of its \<open>span\<close>, \<open>div\<close> and \<open>p\<close>
  descendants, the \<open>src\<close> of its first image, the text of its author element, the text
  of the element \<open>percentage-read-<asin>\<close>, the text of its first progress element, and
  its \<open>innerText || textContent || ''\<close>.  The \<open>_debug\<close> entries of a book are left out.
\<close>

record library_item =
  item_id :: string
  aria_label :: "string option"
  text_nodes :: "string list"
  img_src :: "string option"
  author_text :: "string option"
  percentage_read_text :: "string option"
  progress_el_text :: "string option"
  all_text :: string

record js_book =
  js_asin :: string
  js_title :: string
  js_authors :: "string list"
  js_coverUrl :: "string option"
  js_totalPages :: "jsnum option"
  js_currentPosition :: "jsnum option"
  js_percentComplete :: jsnum

text \<open>\<open>s.replace(sub, '')\<close> with a string pattern: the first occurrence is removed.\<close>

fun remove_first :: "string \<Rightarrow> string \<Rightarrow> string" where
  "remove_first sub [] = []"
| "remove_first sub (c # cs) =
     (if starts_with sub (c # cs) then drop (length sub) (c # cs) else c # remove_first sub cs)"

definition first_title :: "string list \<Rightarrow> string option" where
  "first_title nodes =
     List.find (\<lambda>t. t \<noteq> [] \<and> 3 < length t \<and> length t < 200) (map js_trim nodes)"

text \<open>\<open>/(\\d+)/\<close> and \<open>/(\\d+)%/\<close> on a text: the digits of the leftmost match.\<close>

definition digits_at :: "string \<Rightarrow> string option" where
  "digits_at s = map_option fst (span_plus is_digit s)"

definition percent_of_item :: "library_item \<Rightarrow> jsnum" where
  "percent_of_item item =
     (let p1 = (case percentage_read_text item of
                  None \<Rightarrow> Fin 0
                | Some percentText \<Rightarrow>
                    (case search digits_at percentText of
                       Some ds \<Rightarrow> parseFloat ds | None \<Rightarrow> Fin 0));
          p2 = (if p1 = Fin 0
                then (case progress_el_text item of
                        None \<Rightarrow> p1
                      | Some progressText \<Rightarrow>
                          (case search digits_at progressText of
                             Some ds \<Rightarrow> parseFloat ds | None \<Rightarrow> p1))
                else p1)
      in if p2 = Fin 0
         then (case search percent_at (all_text item) of
                 Some ds \<Rightarrow> parseFloat ds | None \<Rightarrow> p2)
         else p2)"

definition item_title :: "library_item \<Rightarrow> string" where
  "item_title item =
     (case aria_label item of
        Some ariaLabel \<Rightarrow>
          if ariaLabel \<noteq> [] then ariaLabel
          else (case first_title (text_nodes item) of Some t \<Rightarrow> t | None \<Rightarrow> ''Unknown'')
      | None \<Rightarrow> (case first_title (text_nodes item) of Some t \<Rightarrow> t | None \<Rightarrow> ''Unknown''))"

text \<open>The script of \<open>get_library_and_progress\<close> in \<open>archived/src/scraper.py\<close>.\<close>

fun library_books :: "library_item list \<Rightarrow> js_book list" where
  "library_books [] = []"
| "library_books (item # items) =
     (if contains ''sample'' (item_id item) then library_books items
      else (let asin = remove_first ''library-item-option-'' (item_id item)
            in if asin = [] then library_books items
               else (let percentComplete = percent_of_item item
                     in \<lparr> js_asin = asin, js_title = item_title item,
                          js_authors = (case author_text item of
                                          None \<Rightarrow> [] | Some a \<Rightarrow> [js_trim a]),
                          js_coverUrl = img_src item,
                          js_totalPages = Some (Fin 100),
                          js_currentPosition = Some percentComplete,
                          js_percentComplete = percentComplete \<rparr>
                        # library_books items)))"

text \<open>
  The script of \<open>get_library_and_progress\<close> in \<open>src/scraper.py\<close>: the percentage is read
  from the progress element only, with \<open>/(\\d+)%/\<close>, and \<open>totalPages\<close> and
  \<open>currentPosition\<close> are \<open>null\<close>.
\<close>

definition percent_of_item_current :: "library_item \<Rightarrow> jsnum" where
  "percent_of_item_current item =
     (case progress_el_text item of
        None \<Rightarrow> Fin 0
      | Some progressText \<Rightarrow>
          (case search percent_at progressText of Some ds \<Rightarrow> parseFloat ds | None \<Rightarrow> Fin 0))"

fun library_books_current :: "library_item list \<Rightarrow> js_book list" where
  "library_books_current [] = []"
| "library_books_current (item # items) =
     (if contains ''sample'' (item_id item) then library_books_current items
      else (let asin = remove_first ''library-item-option-'' (item_id item)
            in if asin = [] then library_books_current items
               else \<lparr> js_asin = asin, js_title = item_title item,
                      js_authors = (case author_text item of
                                      None \<Rightarrow> [] | Some a \<Rightarrow> [js_trim a]),
                      js_coverUrl = img_src item,
                      js_totalPages = None,
                      js_currentPosition = None,
                      js_percentComplete = percent_of_item_current item \<rparr>
                    # library_books_current items))"

section \<open>The session navigator (archived/src/scraper.py, is_logged_in)\<close>

text \<open>
  What \<open>is_logged_in\<close> returns: \<open>True\<close>, \<open>False\<close> or \<open>"2fa"\<close>.
\<close>

datatype login_status = LoggedIn | NotLoggedIn | Needs2FA

text \<open>
  The browser is outside the program.  Its page is a state of some type \<open>'w\<close>.  An
  action (\<open>goto\<close>, \<open>click\<close>, the click on the \<open>i\<close>-th element of a locator, \<open>fill\<close>)
  may raise and leaves a new page, which also accounts for what the page does during
  the sleep after the action; a question (\<open>count\<close>, \<open>input_value\<close>, \<open>text_content\<close>)
  is answered or raises (\<open>None\<close>).  The actions performed are kept in a list.
\<close>

datatype action = Goto string | Click string | ClickNth string nat | Fill string string

record 'w browser =
  url_of :: "'w \<Rightarrow> string"
  perform :: "action \<Rightarrow> 'w \<Rightarrow> bool \<times> 'w"
  count_of :: "string \<Rightarrow> 'w \<Rightarrow> nat option"
  input_value :: "string \<Rightarrow> 'w \<Rightarrow> string option"
  text_content :: "string \<Rightarrow> nat \<Rightarrow> 'w \<Rightarrow> string option option"

text \<open>
  How a piece of the \<open>try\<close> block on an auth page ends: with a value, with an
  exception (which the \<open>except\<close> clause of the block catches), or with a \<open>return\<close>.
\<close>

datatype ('a, 'w) nav = Ok 'a 'w "action list" | Exc 'w "action list" | Ret login_status 'w "action list"

definition nav_bind ::
  "('a, 'w) nav \<Rightarrow> ('a \<Rightarrow> 'w \<Rightarrow> action list \<Rightarrow> ('b, 'w) nav) \<Rightarrow> ('b, 'w) nav" where
  "nav_bind m f = (case m of Ok a w tr \<Rightarrow> f a w tr | Exc w tr \<Rightarrow> Exc w tr | Ret s w tr \<Rightarrow> Ret s w tr)"

definition act :: "'w browser \<Rightarrow> action \<Rightarrow> 'w \<Rightarrow> action list \<Rightarrow> (unit, 'w) nav" where
  "act br a w tr = (case perform br a w of (raised, w') \<Rightarrow>
                      if raised then Exc w' (tr @ [a]) else Ok () w' (tr @ [a]))"

definition ask_count :: "'w browser \<Rightarrow> string \<Rightarrow> 'w \<Rightarrow> action list \<Rightarrow> (nat, 'w) nav" where
  "ask_count br sel w tr = (case count_of br sel w of None \<Rightarrow> Exc w tr | Some n \<Rightarrow> Ok n w tr)"

definition ask_value :: "'w browser \<Rightarrow> string \<Rightarrow> 'w \<Rightarrow> action list \<Rightarrow> (string, 'w) nav" where
  "ask_value br sel w tr = (case input_value br sel w of None \<Rightarrow> Exc w tr | Some v \<Rightarrow> Ok v w tr)"

text \<open>
  The constants of the method.  A selector is the text given to \<open>page.locator\<close> or
  \<open>page.click\<close>; \<open>signin_sel\<close> stands for the locator
  \<open>button, input[type="submit"], a\<close> filtered by the text "Sign in".
\<close>

definition LIBRARY_URL :: string where
  "LIBRARY_URL = ''https://read.amazon.com/kindle-library''"

definition auth_pages :: "string list" where
  "auth_pages = [''signin'', ''ap/signin'', ''ap/mfa'', ''ap/cvf'', ''ap/dcq'',
                 ''primememberpromo'', ''verification'', ''challenge'']"

definition twofa_pages :: "string list" where
  "twofa_pages = [''ap/mfa'', ''ap/cvf'', ''ap/dcq'', ''challenge'', ''verification'']"

definition email_sel :: string where
  "email_sel = ''input[type=\"email\"], input[name=\"email\"]''"

definition continue_sel :: string where
  "continue_sel = ''input#continue, span#continue''"

definition password_sel :: string where
  "password_sel = ''input[type=\"password\"]''"

definition signin_sel :: string where
  "signin_sel = ''button, input[type=\"submit\"], a [has_text=Sign in]''"

definition submit_sel :: string where
  "submit_sel = ''input#signInSubmit, input[type=\"submit\"], button[type=\"submit\"]''"

definition landing_sel :: string where
  "landing_sel = ''text=\"Sign in with your account\"''"

text \<open>
  The loop over the sign-in buttons: the first one whose text does not mention a
  passkey is clicked.
\<close>

fun choose_signin :: "'w browser \<Rightarrow> nat list \<Rightarrow> 'w \<Rightarrow> action list \<Rightarrow> (unit, 'w) nav" where
  "choose_signin br [] w tr = Ok () w tr"
| "choose_signin br (i # rest) w tr =
     (case text_content br signin_sel i w of
        None \<Rightarrow> Exc w tr
      | Some t \<Rightarrow>
          (let btn_text = py_lower (case t of None \<Rightarrow> [] | Some s \<Rightarrow> s)
           in if contains ''passkey'' btn_text
              then choose_signin br rest w tr
              else act br (ClickNth signin_sel i) w tr))"

text \<open>The four steps of the \<open>try\<close> block, in the order of the source.\<close>

definition fill_email :: "config \<Rightarrow> 'w browser \<Rightarrow> 'w \<Rightarrow> action list \<Rightarrow> (unit, 'w) nav" where
  "fill_email cfg br w tr =
     nav_bind (ask_count br email_sel w tr) (\<lambda>n w tr.
       if 0 < n
       then nav_bind (ask_value br email_sel w tr) (\<lambda>current_value w tr.
              if current_value = []
              then (if amazon_email cfg \<noteq> []
                    then nav_bind (act br (Fill email_sel (amazon_email cfg)) w tr) (\<lambda>_ w tr.
                           nav_bind (ask_count br continue_sel w tr) (\<lambda>k w tr.
                             if 0 < k then act br (Click continue_sel) w tr else Ok () w tr))
                    else Ret NotLoggedIn w tr)
              else Ok () w tr)
       else Ok () w tr)"

definition reveal_password :: "'w browser \<Rightarrow> 'w \<Rightarrow> action list \<Rightarrow> (unit, 'w) nav" where
  "reveal_password br w tr =
     nav_bind (ask_count br password_sel w tr) (\<lambda>n w tr.
       if n = 0
       then nav_bind (ask_count br signin_sel w tr) (\<lambda>m w tr. choose_signin br [0..<m] w tr)
       else Ok () w tr)"

definition fill_password :: "config \<Rightarrow> 'w browser \<Rightarrow> 'w \<Rightarrow> action list \<Rightarrow> (unit, 'w) nav" where
  "fill_password cfg br w tr =
     nav_bind (ask_count br password_sel w tr) (\<lambda>n w tr.
       if 0 < n
       then nav_bind (ask_value br password_sel w tr) (\<lambda>current_value w tr.
              if current_value = []
              then (if amazon_password cfg \<noteq> []
                    then act br (Fill password_sel (amazon_password cfg)) w tr
                    else Ret NotLoggedIn w tr)
              else Ok () w tr)
       else Ok () w tr)"

definition click_submit :: "'w browser \<Rightarrow> 'w \<Rightarrow> action list \<Rightarrow> (unit, 'w) nav" where
  "click_submit br w tr =
     nav_bind (ask_count br submit_sel w tr) (\<lambda>n w tr.
       if 0 < n then act br (Click submit_sel) w tr else Ok () w tr)"

definition handle_auth_page :: "config \<Rightarrow> 'w browser \<Rightarrow> 'w \<Rightarrow> action list \<Rightarrow> (unit, 'w) nav" where
  "handle_auth_page cfg br w tr =
     nav_bind (fill_email cfg br w tr) (\<lambda>_ w tr.
       nav_bind (reveal_password br w tr) (\<lambda>_ w tr.
         nav_bind (fill_password cfg br w tr) (\<lambda>_ w tr.
           click_submit br w tr)))"

text \<open>
  After a \<open>try\<close> block the loop goes on (\<open>None\<close>) unless the block returned.  One
  attempt is one run of the body of \<open>for attempt in range(5)\<close>; the tests on the URL
  are made in the order library, landing page, auth page.
\<close>

definition after_try :: "(unit, 'w) nav \<Rightarrow> login_status option \<times> 'w \<times> action list" where
  "after_try r = (case r of Ok _ w tr \<Rightarrow> (None, w, tr) | Exc w tr \<Rightarrow> (None, w, tr)
                  | Ret s w tr \<Rightarrow> (Some s, w, tr))"

definition login_attempt ::
  "config \<Rightarrow> 'w browser \<Rightarrow> 'w \<Rightarrow> action list \<Rightarrow> login_status option \<times> 'w \<times> action list" where
  "login_attempt cfg br w tr =
     (let current_url = py_lower (url_of br w)
      in if contains ''read.amazon.com/kindle-library'' current_url then (Some LoggedIn, w, tr)
         else if contains ''landing'' current_url
         then after_try (act br (Click landing_sel) w tr)
         else if list_ex (\<lambda>page. contains page current_url) auth_pages
         then (if list_ex (\<lambda>x. contains x current_url) twofa_pages
               then (Some Needs2FA, w, tr)
               else after_try (handle_auth_page cfg br w tr))
         else after_try (act br (Goto LIBRARY_URL) w tr))"

fun login_loop ::
  "nat \<Rightarrow> config \<Rightarrow> 'w browser \<Rightarrow> 'w \<Rightarrow> action list \<Rightarrow> login_status \<times> 'w \<times> action list" where
  "login_loop 0 cfg br w tr = (NotLoggedIn, w, tr)"
| "login_loop (Suc n) cfg br w tr =
     (case login_attempt cfg br w tr of
        (Some s, w', tr') \<Rightarrow> (s, w', tr')
      | (None, w', tr') \<Rightarrow> login_loop n cfg br w' tr')"

text \<open>
  \<open>self.page\<close> may be missing; otherwise the library is requested once, whether or
  not that raises, and up to five attempts follow.
\<close>

definition is_logged_in ::
  "config \<Rightarrow> 'w browser \<Rightarrow> 'w option \<Rightarrow> login_status \<times> 'w option \<times> action list" where
  "is_logged_in cfg br page =
     (case page of
        None \<Rightarrow> (NotLoggedIn, None, [])
      | Some w \<Rightarrow>
          (case after_try (act br (Goto LIBRARY_URL) w []) of
             (_, w', tr) \<Rightarrow> (case login_loop 5 cfg br w' tr of (s, w'', tr') \<Rightarrow> (s, Some w'', tr'))))"

section \<open>The scrape orchestrator (archived/src/scraper.py)\<close>

text \<open>
  The values that occur in the dictionaries a pass returns or yields.  \<open>PTime\<close> stands
  for the ISO text of \<open>datetime.now()\<close>, \<open>PMessage e\<close> for \<open>str(e)\<close>, \<open>PPercent\<close> for
  a percentage as the reader view gave it.  A dictionary is the list of its entries
  in the order the literal writes them.
\<close>

datatype 'p pyval =
    PNone | PBool bool | PInt int | PFloat real | PStr string | PStrs "string list"
  | PTime clock | PMessage error | PPercent "'p pynum"

type_synonym 'p pydict = "(string \<times> 'p pyval) list"

text \<open>
  A book of the list \<open>get_library_and_progress\<close> returns, and the progress dictionary
  of the reader view, as Python receives them.  A whole JavaScript number below
  \<open>1e21\<close> arrives as a Python int of any size; pages and positions are taken to be
  such ints.
\<close>

record 'p py_book =
  book_asin :: string
  book_title :: string
  book_authors :: "string list"
  book_coverUrl :: "string option"
  book_totalPages :: "int option"
  book_currentPosition :: "int option"
  book_percentComplete :: "'p pynum"

record 'p py_progress =
  progress_current :: "int option"
  progress_total :: "int option"
  progress_percent :: "'p pynum"

text \<open>
  What \<open>get_book_progress_from_reader\<close> returns: \<open>{}\<close>, \<open>{"error": "license_limit"}\<close>
  or the progress dictionary.
\<close>

datatype 'p reader_outcome = NoData | LicenseLimit | Info "'p py_progress"

text \<open>
  What the browser shows while a book is opened: the number of elements with the
  book's id, whether an exception is raised before the license check (by the click or
  by a script), the body text at the license check, whether the way back to the
  library raises, and what the extraction script returns.  Every exception inside the
  method is caught by its own \<open>except\<close> clause and turned into \<open>{}\<close>.
\<close>

record 'p reader_page =
  book_el_count :: nat
  open_raises :: bool
  body_at_check :: string
  return_raises :: bool
  evaluated :: "error + 'p py_progress"

definition license_dialog :: "string \<Rightarrow> bool" where
  "license_dialog bodyText =
     (contains ''License Limit Reached'' bodyText
      \<or> contains ''exceeded the limit on the number of devices'' bodyText)"

definition get_book_progress_from_reader :: "'p reader_page \<Rightarrow> 'p reader_outcome" where
  "get_book_progress_from_reader pg =
     (if book_el_count pg = 0 then NoData
      else if open_raises pg then NoData
      else if license_dialog (body_at_check pg)
      then (if return_raises pg then NoData else LicenseLimit)
      else (case evaluated pg of
              Inl e \<Rightarrow> NoData
            | Inr progress_info \<Rightarrow> if return_raises pg then NoData else Info progress_info))"

text \<open>
  The surroundings of a pass: the answers of \<open>is_logged_in\<close>, \<open>login\<close> and
  \<open>get_library_and_progress\<close> (each may raise), and for the item at each index the
  reader page and the time of its writes; the clock readings of the events and the
  rounded duration.
\<close>

record 'p item_env =
  upsert_stamp :: timestamp
  item_page :: "'p reader_page"
  item_clock :: clock

record 'p scrape_env =
  login_check :: "error + login_status"
  login_call :: "error option"
  library :: "error + 'p py_book list"
  item_at :: "nat \<Rightarrow> 'p item_env"
  started_clock :: clock
  finished_clock :: clock
  duration_seconds :: real

text \<open>The ledger and the two accumulators of the loop.\<close>

record 'p pass_state =
  pass_db :: "'p ledger"
  books_with_progress :: int
  books_with_license_limit :: "string list"

definition msg_2fa :: string where
  "msg_2fa = ''2FA/verification required. Run '' @ [CHR 0x27] @ ''make login'' @ [CHR 0x27]
             @ '' with BROWSER_HEADLESS=false to complete manually.''"

definition msg_no_credentials :: string where
  "msg_no_credentials = ''Not logged in and no credentials configured''"

text \<open>
  The statements of the loop body after the reader has answered, shared by both passes.
  \<open>upsert_book\<close> and \<open>record_progress\<close> each commit on their own, so an exception
  leaves the ledger with the writes of the calls that returned before it; the exception
  is returned beside that ledger.
\<close>

definition save_progress ::
  "config \<Rightarrow> 'p item_env \<Rightarrow> 'p py_book \<Rightarrow> 'p py_progress \<Rightarrow> int \<Rightarrow> 'p ledger
     \<Rightarrow> 'p ledger \<times> error option" where
  "save_progress cfg ie book progress current_page db =
     (let total_pages = progress_total progress;
          percent = progress_percent progress;
          refined = (case total_pages of
                       None \<Rightarrow> Inr db
                     | Some t \<Rightarrow>
                         if t \<noteq> 0 \<and> t \<noteq> 100
                         then upsert_book db (now_stamp (item_clock ie)) (book_asin book)
                                (book_title book) (book_authors book) (Some t) (book_coverUrl book)
                         else Inr db)
      in case refined of
           Inl e \<Rightarrow> (db, Some e)
         | Inr db' \<Rightarrow>
             (case record_progress cfg db' (item_clock ie) (book_asin book) current_page percent of
                Inl e \<Rightarrow> (db', Some e)
              | Inr db'' \<Rightarrow> (db'', None)))"

text \<open>The loop of \<open>scrape_and_save\<close>.\<close>

fun scrape_books ::
  "config \<Rightarrow> (nat \<Rightarrow> 'p item_env) \<Rightarrow> nat \<Rightarrow> 'p py_book list \<Rightarrow> 'p pass_state
     \<Rightarrow> 'p pass_state \<times> error option" where
  "scrape_books cfg env i [] st = (st, None)"
| "scrape_books cfg env i (book # rest) st =
     (let asin = book_asin book;
          ttl = take 40 (book_title book)
      in case upsert_book (pass_db st) (upsert_stamp (env i)) asin (book_title book)
                (book_authors book) (book_totalPages book) (book_coverUrl book) of
           Inl e \<Rightarrow> (st, Some e)
         | Inr db1 \<Rightarrow>
      (case get_book_progress_from_reader (item_page (env i)) of
           LicenseLimit \<Rightarrow>
             scrape_books cfg env (Suc i) rest
               (st\<lparr>pass_db := db1,
                   books_with_license_limit := books_with_license_limit st @ [ttl]\<rparr>)
         | NoData \<Rightarrow> scrape_books cfg env (Suc i) rest (st\<lparr>pass_db := db1\<rparr>)
         | Info info \<Rightarrow>
             (case progress_current info of
                None \<Rightarrow> scrape_books cfg env (Suc i) rest (st\<lparr>pass_db := db1\<rparr>)
              | Some current_page \<Rightarrow>
                  (case save_progress cfg (env i) book info current_page db1 of
                     (db2, Some e) \<Rightarrow> (st\<lparr>pass_db := db2\<rparr>, Some e)
                   | (db2, None) \<Rightarrow>
                       scrape_books cfg env (Suc i) rest
                         (st\<lparr>pass_db := db2,
                             books_with_progress := books_with_progress st + 1\<rparr>)))))"

text \<open>The two shapes of the summary.\<close>

definition failure_result :: "'p pyval \<Rightarrow> clock \<Rightarrow> 'p pydict" where
  "failure_result err t = [(''success'', PBool False), (''error'', err), (''timestamp'', PTime t)]"

definition success_result :: "nat \<Rightarrow> 'p pass_state \<Rightarrow> clock \<Rightarrow> 'p pydict" where
  "success_result n st t =
     [(''success'', PBool True), (''books_scraped'', PInt (int n)),
      (''books_with_progress'', PInt (books_with_progress st)), (''timestamp'', PTime t)]
     @ (if books_with_license_limit st \<noteq> []
        then [(''license_limit_books'', PStrs (books_with_license_limit st))] else [])"

text \<open>
  The steps before the library is read: \<open>Inl\<close> an early \<open>return\<close> with its message,
  \<open>Inr (Some e)\<close> an exception, \<open>Inr None\<close> the session is ready.
\<close>

definition ensure_login :: "config \<Rightarrow> 'p scrape_env \<Rightarrow> string + error option" where
  "ensure_login cfg env =
     (case login_check env of
        Inl e \<Rightarrow> Inr (Some e)
      | Inr Needs2FA \<Rightarrow> Inl msg_2fa
      | Inr LoggedIn \<Rightarrow> Inr None
      | Inr NotLoggedIn \<Rightarrow>
          if amazon_email cfg \<noteq> [] \<and> amazon_password cfg \<noteq> []
          then Inr (login_call env)
          else Inl msg_no_credentials)"

text \<open>
  \<open>scrape_and_save\<close>: the \<open>except Exception\<close> clause turns every exception into the
  failure summary, so the method returns a dictionary in every case.
\<close>

definition scrape_and_save ::
  "config \<Rightarrow> 'p scrape_env \<Rightarrow> 'p ledger \<Rightarrow> 'p pydict \<times> 'p ledger" where
  "scrape_and_save cfg env db =
     (case ensure_login cfg env of
        Inl msg \<Rightarrow> (failure_result (PStr msg) (finished_clock env), db)
      | Inr (Some e) \<Rightarrow> (failure_result (PMessage e) (finished_clock env), db)
      | Inr None \<Rightarrow>
          (case library env of
             Inl e \<Rightarrow> (failure_result (PMessage e) (finished_clock env), db)
           | Inr listing \<Rightarrow>
               (case scrape_books cfg (item_at env) 0 listing
                       \<lparr> pass_db = db, books_with_progress = 0, books_with_license_limit = [] \<rparr> of
                  (st, Some e) \<Rightarrow> (failure_result (PMessage e) (finished_clock env), pass_db st)
                | (st, None) \<Rightarrow>
                    (success_result (length listing) st (finished_clock env), pass_db st))))"

subsection \<open>Streaming\<close>

text \<open>The five events, entry by entry.\<close>

definition started_event :: "nat \<Rightarrow> clock \<Rightarrow> 'p pydict" where
  "started_event n t =
     [(''event'', PStr ''started''), (''total_books'', PInt (int n)), (''timestamp'', PTime t)]"

definition book_progress_event :: "nat \<Rightarrow> nat \<Rightarrow> string \<Rightarrow> string \<Rightarrow> 'p pydict" where
  "book_progress_event idx n ttl asin =
     [(''event'', PStr ''book_progress''), (''current'', PInt (int idx + 1)),
      (''total'', PInt (int n)), (''book_title'', PStr ttl), (''book_asin'', PStr asin)]"

definition book_complete_event ::
  "nat \<Rightarrow> nat \<Rightarrow> string \<Rightarrow> string \<Rightarrow> 'p pyval \<Rightarrow> bool \<Rightarrow> 'p pyval \<Rightarrow> 'p pydict" where
  "book_complete_event idx n ttl asin pct success err =
     [(''event'', PStr ''book_complete''), (''current'', PInt (int idx + 1)),
      (''total'', PInt (int n)), (''book_title'', PStr ttl), (''book_asin'', PStr asin),
      (''percent_complete'', pct), (''success'', PBool success), (''error'', err)]"

definition error_event :: "'p pyval \<Rightarrow> 'p pydict" where
  "error_event msg = [(''event'', PStr ''error''), (''message'', msg), (''recoverable'', PBool False)]"

definition completed_event :: "nat \<Rightarrow> 'p pass_state \<Rightarrow> real \<Rightarrow> clock \<Rightarrow> 'p pydict" where
  "completed_event n st duration t =
     [(''event'', PStr ''completed''), (''success'', PBool True),
      (''books_scraped'', PInt (int n)),
      (''books_with_progress'', PInt (books_with_progress st)),
      (''duration_seconds'', PFloat duration), (''timestamp'', PTime t),
      (''license_limit_books'',
         if books_with_license_limit st \<noteq> [] then PStrs (books_with_license_limit st)
         else PNone)]"

text \<open>
  The loop of \<open>scrape_and_save_streaming\<close>, with the events it yields.  The generator
  is taken to be run to its end by the caller.
\<close>

fun stream_books ::
  "config \<Rightarrow> (nat \<Rightarrow> 'p item_env) \<Rightarrow> nat \<Rightarrow> nat \<Rightarrow> 'p py_book list \<Rightarrow> 'p pass_state
     \<Rightarrow> 'p pydict list \<times> 'p pass_state \<times> error option" where
  "stream_books cfg env n idx [] st = ([], st, None)"
| "stream_books cfg env n idx (book # rest) st =
     (let asin = book_asin book;
          ttl = take 40 (book_title book);
          before = book_progress_event idx n ttl asin
      in case upsert_book (pass_db st) (upsert_stamp (env idx)) asin (book_title book)
                (book_authors book) (book_totalPages book) (book_coverUrl book) of
           Inl e \<Rightarrow> ([before], st, Some e)
         | Inr db1 \<Rightarrow>
      (case get_book_progress_from_reader (item_page (env idx)) of
           LicenseLimit \<Rightarrow>
             (case stream_books cfg env n (Suc idx) rest
                     (st\<lparr>pass_db := db1,
                         books_with_license_limit := books_with_license_limit st @ [ttl]\<rparr>) of
                (evs, r) \<Rightarrow>
                  (before # book_complete_event idx n ttl asin PNone False (PStr ''license_limit'')
                     # evs, r))
         | NoData \<Rightarrow>
             (case stream_books cfg env n (Suc idx) rest (st\<lparr>pass_db := db1\<rparr>) of
                (evs, r) \<Rightarrow> (before # book_complete_event idx n ttl asin PNone True PNone # evs, r))
         | Info info \<Rightarrow>
             (case progress_current info of
                None \<Rightarrow>
                  (case stream_books cfg env n (Suc idx) rest (st\<lparr>pass_db := db1\<rparr>) of
                     (evs, r) \<Rightarrow>
                       (before # book_complete_event idx n ttl asin PNone True PNone # evs, r))
              | Some current_page \<Rightarrow>
                  (case save_progress cfg (env idx) book info current_page db1 of
                     (db2, Some e) \<Rightarrow> ([before], st\<lparr>pass_db := db2\<rparr>, Some e)
                   | (db2, None) \<Rightarrow>
                       (case stream_books cfg env n (Suc idx) rest
                               (st\<lparr>pass_db := db2,
                                   books_with_progress := books_with_progress st + 1\<rparr>) of
                          (evs, r) \<Rightarrow>
                            (before # book_complete_event idx n ttl asin
                                        (PPercent (progress_percent info)) True PNone # evs, r))))))"

definition scrape_and_save_streaming ::
  "config \<Rightarrow> 'p scrape_env \<Rightarrow> 'p ledger \<Rightarrow> 'p pydict list \<times> 'p ledger" where
  "scrape_and_save_streaming cfg env db =
     (case ensure_login cfg env of
        Inl msg \<Rightarrow> ([error_event (PStr msg)], db)
      | Inr (Some e) \<Rightarrow> ([error_event (PMessage e)], db)
      | Inr None \<Rightarrow>
          (case library env of
             Inl e \<Rightarrow> ([error_event (PMessage e)], db)
           | Inr listing \<Rightarrow>
               (case stream_books cfg (item_at env) (length listing) 0 listing
                       \<lparr> pass_db = db, books_with_progress = 0, books_with_license_limit = [] \<rparr> of
                  (evs, st, Some e) \<Rightarrow>
                    (started_event (length listing) (started_clock env) # evs
                       @ [error_event (PMessage e)], pass_db st)
                | (evs, st, None) \<Rightarrow>
                    (started_event (length listing) (started_clock env) # evs
                       @ [completed_event (length listing) st (duration_seconds env)
                            (finished_clock env)], pass_db st))))"



subsection \<open>The pass of src/scraper.py\<close>

text \<open>
  \<open>scrape_and_save\<close> of the current module reads the library view only: it stores
  every book and records a snapshot for the books whose \<open>currentPosition\<close> is present.
\<close>

fun store_books ::
  "config \<Rightarrow> (nat \<Rightarrow> 'p item_env) \<Rightarrow> nat \<Rightarrow> 'p py_book list \<Rightarrow> 'p ledger
     \<Rightarrow> 'p ledger \<times> error option" where
  "store_books cfg env i [] db = (db, None)"
| "store_books cfg env i (book # rest) db =
     (case upsert_book db (upsert_stamp (env i)) (book_asin book) (book_title book)
             (book_authors book) (book_totalPages book) (book_coverUrl book) of
        Inl e \<Rightarrow> (db, Some e)
      | Inr db1 \<Rightarrow>
          (case book_currentPosition book of
             None \<Rightarrow> store_books cfg env (Suc i) rest db1
           | Some pos \<Rightarrow>
               (case record_progress cfg db1 (item_clock (env i)) (book_asin book) pos
                       (book_percentComplete book) of
                  Inl e \<Rightarrow> (db1, Some e)
                | Inr db2 \<Rightarrow> store_books cfg env (Suc i) rest db2)))"

definition scrape_and_save_current ::
  "config \<Rightarrow> 'p scrape_env \<Rightarrow> 'p ledger \<Rightarrow> 'p pydict \<times> 'p ledger" where
  "scrape_and_save_current cfg env db =
     (case ensure_login cfg env of
        Inl msg \<Rightarrow> (failure_result (PStr msg) (finished_clock env), db)
      | Inr (Some e) \<Rightarrow> (failure_result (PMessage e) (finished_clock env), db)
      | Inr None \<Rightarrow>
          (case library env of
             Inl e \<Rightarrow> (failure_result (PMessage e) (finished_clock env), db)
           | Inr listing \<Rightarrow>
               (case store_books cfg (item_at env) 0 listing db of
                  (db', Some e) \<Rightarrow> (failure_result (PMessage e) (finished_clock env), db')
                | (db', None) \<Rightarrow>
                    ([(''success'', PBool True), (''books_scraped'', PInt (int (length listing))),
                      (''timestamp'', PTime (finished_clock env))], db'))))"

section \<open>Notions used in the statements\<close>

text \<open>
  The settings a pass reads hold integers, and the goal is one a float can hold.  This
  depends on \<open>settings_table\<close> only, which no operation of a pass writes.
\<close>

definition settings_ok :: "config \<Rightarrow> 'p ledger \<Rightarrow> bool" where
  "settings_ok cfg db =
     ((\<exists>h. setting_int db ''day_reset_hour'' (day_reset_hour cfg) = Inr h)
      \<and> (\<exists>g. setting_int db ''daily_page_goal'' (daily_page_goal cfg) = Inr g \<and> float_ok g))"

text \<open>An optional number of pages that SQLite accepts, and a ledger without negative positions.\<close>

definition sql_pages :: "int option \<Rightarrow> bool" where
  "sql_pages pages = (case pages of None \<Rightarrow> True | Some n \<Rightarrow> sql_int n)"

definition positions_ok :: "'p ledger \<Rightarrow> bool" where
  "positions_ok db = list_all (\<lambda>r. 0 \<le> position r) (reading_progress db)"

text \<open>What the reader view gave for the item at an index, and whether it holds a position.\<close>

definition outcome_at :: "(nat \<Rightarrow> 'p item_env) \<Rightarrow> nat \<Rightarrow> 'p reader_outcome" where
  "outcome_at env i = get_book_progress_from_reader (item_page (env i))"

definition has_progress :: "'p reader_outcome \<Rightarrow> bool" where
  "has_progress out = (case out of Info info \<Rightarrow> progress_current info \<noteq> None | _ \<Rightarrow> False)"

text \<open>
  The titles (cut to 40 characters) of the license-limited items, the number of items
  with a position, and the snapshots these items give, over the books \<open>bs\<close> that
  start at index \<open>i\<close>.
\<close>

definition limited_titles :: "(nat \<Rightarrow> 'p item_env) \<Rightarrow> nat \<Rightarrow> 'p py_book list \<Rightarrow> string list" where
  "limited_titles env i bs =
     map (\<lambda>jb. take 40 (book_title (snd jb)))
       (filter (\<lambda>jb. outcome_at env (fst jb) = LicenseLimit) (List.enumerate i bs))"

definition found_count :: "(nat \<Rightarrow> 'p item_env) \<Rightarrow> nat \<Rightarrow> 'p py_book list \<Rightarrow> nat" where
  "found_count env i bs =
     length (filter (\<lambda>jb. has_progress (outcome_at env (fst jb))) (List.enumerate i bs))"

definition new_rows ::
  "(nat \<Rightarrow> 'p item_env) \<Rightarrow> nat \<Rightarrow> 'p py_book list \<Rightarrow> 'p progress_row list" where
  "new_rows env i bs =
     concat (map (\<lambda>jb. case outcome_at env (fst jb) of
                          Info info \<Rightarrow>
                            (case progress_current info of
                               Some cur \<Rightarrow>
                                 [\<lparr> progress_asin = book_asin (snd jb), position = cur,
                                    percent_complete = progress_percent info,
                                    recorded_at = now_stamp (item_clock (env (fst jb))) \<rparr>]
                             | None \<Rightarrow> [])
                        | _ \<Rightarrow> [])
               (List.enumerate i bs))"

text \<open>
  An item that cannot raise: SQLite accepts the number of pages the library gave, and
  either the reader view gave no position, so the ledger is not asked to record
  anything, or the settings can be read, the clock is past the first day of the
  calendar, no stored position is negative, and SQLite accepts the position, which is
  not negative, the number of pages and the percentage the reader view gave.
  \<open>items_safe\<close> says so of the books \<open>bs\<close> that start at index \<open>i\<close>.
\<close>

definition item_safe ::
  "config \<Rightarrow> 'p ledger \<Rightarrow> (nat \<Rightarrow> 'p item_env) \<Rightarrow> 'p py_book \<Rightarrow> nat \<Rightarrow> bool" where
  "item_safe cfg db env book j =
     (sql_pages (book_totalPages book)
      \<and> (case outcome_at env j of
            Info info \<Rightarrow>
              (case progress_current info of
                 None \<Rightarrow> True
               | Some cur \<Rightarrow>
                   settings_ok cfg db \<and> positions_ok db \<and> 1 < now_date (item_clock (env j))
                   \<and> 0 \<le> cur \<and> sql_int cur \<and> sql_pages (progress_total info)
                   \<and> sql_number (progress_percent info))
          | _ \<Rightarrow> True))"

definition items_safe ::
  "config \<Rightarrow> 'p ledger \<Rightarrow> (nat \<Rightarrow> 'p item_env) \<Rightarrow> nat \<Rightarrow> 'p py_book list \<Rightarrow> bool" where
  "items_safe cfg db env i bs =
     list_all (\<lambda>jb. item_safe cfg db env (snd jb) (fst jb)) (List.enumerate i bs)"

text \<open>
  The \<open>event\<close> entry of a streamed dictionary; the two terminal events; and the
  entries \<open>event\<close>, \<open>current\<close> and \<open>total\<close> of an event, which for \<open>n\<close> books and the
  item numbers \<open>js\<close> are expected to be the pairs of \<open>item_tags\<close>.
\<close>

definition event_name :: "'p pydict \<Rightarrow> 'p pyval option" where
  "event_name e = map_of e ''event''"

definition terminal :: "'p pydict \<Rightarrow> bool" where
  "terminal e = (event_name e = Some (PStr ''completed'') \<or> event_name e = Some (PStr ''error''))"

definition tag :: "'p pydict \<Rightarrow> 'p pyval option \<times> 'p pyval option \<times> 'p pyval option" where
  "tag e = (map_of e ''event'', map_of e ''current'', map_of e ''total'')"

definition item_tags ::
  "nat \<Rightarrow> nat list \<Rightarrow> ('p pyval option \<times> 'p pyval option \<times> 'p pyval option) list" where
  "item_tags n js =
     concat (map (\<lambda>j. [(Some (PStr ''book_progress''), Some (PInt (int j)), Some (PInt (int n))),
                         (Some (PStr ''book_complete''), Some (PInt (int j)), Some (PInt (int n)))])
               js)"

text \<open>
  The counters at the start of a pass, and the passes the \<open>except\<close> clause or an early
  \<open>return\<close> ends: the login check or the login fails, the library cannot be read, or
  an exception leaves the loop over the books.
\<close>

definition fresh_pass :: "'p ledger \<Rightarrow> 'p pass_state" where
  "fresh_pass db = \<lparr> pass_db = db, books_with_progress = 0, books_with_license_limit = [] \<rparr>"

definition fatal_failure :: "config \<Rightarrow> 'p scrape_env \<Rightarrow> 'p ledger \<Rightarrow> bool" where
  "fatal_failure cfg env db =
     (case ensure_login cfg env of
        Inr None \<Rightarrow>
          (case library env of
             Inr listing \<Rightarrow> snd (scrape_books cfg (item_at env) 0 listing (fresh_pass db)) \<noteq> None
           | Inl e \<Rightarrow> True)
      | _ \<Rightarrow> True)"


section \<open>Fixtures\<close>

text \<open>
  The defaults of \<open>config.Settings\<close>, a ledger holding one earlier snapshot of the
  book \<open>B00TEST001\<close>, and a clock at noon of 2024-01-15 (ordinal 738900).
\<close>

definition default_config :: config where
  "default_config =
     \<lparr> daily_page_goal = 30, day_reset_hour = 4, amazon_email = [], amazon_password = [] \<rparr>"

definition one_snapshot :: "int \<Rightarrow> real ledger" where
  "one_snapshot p = init_db\<lparr>reading_progress :=
      [\<lparr> progress_asin = ''B00TEST001'', position = p, percent_complete = PyFloat 3,
         recorded_at = 1 \<rparr>]\<rparr>"

definition noon :: "timestamp \<Rightarrow> clock" where
  "noon t = \<lparr> now_date = 738900, now_hour = 12, now_minute = 0, now_stamp = t \<rparr>"





text \<open>A fresh database after one book with 300 pages has been stored.\<close>

definition great_book :: "real ledger" where
  "great_book = init_db\<lparr>books := [''B00TEST001'' \<mapsto>
      \<lparr> title = ''The Great Book'', authors = [''John Author''], total_pages = Some 300,
        cover_url = Some ''https://example.com/cover1.jpg'', last_updated = 1 \<rparr>]\<rparr>"

text \<open>A browser whose page never changes: its state is the URL it shows.\<close>

definition still_browser :: "string browser" where
  "still_browser = \<lparr> url_of = (\<lambda>w. w), perform = (\<lambda>a w. (False, w)),
      count_of = (\<lambda>sel w. Some 1), input_value = (\<lambda>sel w. Some []),
      text_content = (\<lambda>sel i w. Some None) \<rparr>"

text \<open>
  A library of three books.  The reader view finds page 25 of 300 in the first, the
  license-limit dialog in the second and no progress text in the third.  The library
  view showed 45, 7 and 0 percent for them.
\<close>

definition shelf :: "real py_book list" where
  "shelf =
     [\<lparr> book_asin = ''B00TEST001'', book_title = ''The Great Book'',
        book_authors = [''John Author''], book_coverUrl = None, book_totalPages = Some 100,
        book_currentPosition = Some 45, book_percentComplete = PyInt 45 \<rparr>,
      \<lparr> book_asin = ''B00TEST002'', book_title = ''Another Book'',
        book_authors = [''Jane Writer''], book_coverUrl = None, book_totalPages = Some 100,
        book_currentPosition = Some 7, book_percentComplete = PyInt 7 \<rparr>,
      \<lparr> book_asin = ''B00TEST003'', book_title = ''A Third Book'',
        book_authors = [], book_coverUrl = None, book_totalPages = Some 100,
        book_currentPosition = Some 0, book_percentComplete = PyInt 0 \<rparr>]"

definition shelf_page :: "nat \<Rightarrow> real reader_page" where
  "shelf_page i =
     (if i = 0
      then \<lparr> book_el_count = 1, open_raises = False, body_at_check = ''Page 25 of 300'',
             return_raises = False,
             evaluated = Inr \<lparr> progress_current = Some 25, progress_total = Some 300,
                               progress_percent = PyInt 8 \<rparr> \<rparr>
      else if i = 1
      then \<lparr> book_el_count = 1, open_raises = False, body_at_check = ''License Limit Reached'',
             return_raises = False,
             evaluated = Inr \<lparr> progress_current = None, progress_total = None,
                               progress_percent = PyInt 0 \<rparr> \<rparr>
      else \<lparr> book_el_count = 1, open_raises = False, body_at_check = ''Chapter One'',
             return_raises = False,
             evaluated = Inr \<lparr> progress_current = None, progress_total = None,
                               progress_percent = PyInt 0 \<rparr> \<rparr>)"

definition shelf_items :: "nat \<Rightarrow> real item_env" where
  "shelf_items i = \<lparr> upsert_stamp = 2 + i, item_page = shelf_page i, item_clock = noon (2 + i) \<rparr>"

definition shelf_env :: "real scrape_env" where
  "shelf_env = \<lparr> login_check = Inr LoggedIn, login_call = None, library = Inr shelf,
                  item_at = shelf_items, started_clock = noon 2, finished_clock = noon 9,
                  duration_seconds = 21.5 \<rparr>"



text \<open>The same pass when the login check meets a verification page.\<close>

definition twofa_env :: "real scrape_env" where
  "twofa_env = shelf_env\<lparr>login_check := Inr Needs2FA\<rparr>"

text \<open>
  A library page of the current module showing one book at 45 percent, and the list
  Python receives for it.
\<close>

definition one_item :: library_item where
  "one_item = \<lparr> item_id = ''library-item-option-B00TEST001'', aria_label = Some ''The Great Book'',
                 text_nodes = [], img_src = None, author_text = Some ''John Author'',
                 percentage_read_text = Some ''45%'', progress_el_text = Some ''45%'',
                 all_text = ''The Great Book 45%'' \<rparr>"

definition one_item_listing :: "real py_book list" where
  "one_item_listing =
     [\<lparr> book_asin = ''B00TEST001'', book_title = ''The Great Book'',
        book_authors = [''John Author''], book_coverUrl = None, book_totalPages = None,
        book_currentPosition = None, book_percentComplete = PyInt 45 \<rparr>]"

section \<open>Properties of the ledger\<close>

subsection \<open>Evaluation on the fixtures\<close>

lemmas py_int_defs =
  py_int_def py_strip_def py_isspace_def is_digit_def digits_value_def digit_val_def

lemma init_reset_hour: "setting_int init_db ''day_reset_hour'' fb = Inr 4"
  by (simp add: setting_int_def get_setting_def init_db_def py_int_defs)

lemma init_goal: "setting_int init_db ''daily_page_goal'' fb = Inr 30"
  by (simp add: setting_int_def get_setting_def init_db_def py_int_defs)

lemma setting_int_reading_progress [simp]:
  "setting_int (db\<lparr>reading_progress := rs\<rparr>) key fb = setting_int db key fb"
  by (simp add: setting_int_def get_setting_def)

lemma setting_int_daily_stats [simp]:
  "setting_int (db\<lparr>daily_stats := ds\<rparr>) key fb = setting_int db key fb"
  by (simp add: setting_int_def get_setting_def)

lemma key_noon: "get_today_key default_config (one_snapshot p) (noon t) = Inr 738900"
  by (simp add: get_today_key_def one_snapshot_def init_reset_hour noon_def)

lemma goal_one:
  "setting_int (one_snapshot p) ''daily_page_goal'' (daily_page_goal default_config) = Inr 30"
  by (simp add: one_snapshot_def init_goal)

lemma stats_one:
  "get_today_stats default_config (one_snapshot p) (noon t) =
     Inr \<lparr> stats_date = 738900, stats_pages_read = 0, stats_page_goal = 30,
           stats_goal_met = False, stats_goal_met_at = None, stats_pages_remaining = 30 \<rparr>"
  by (simp add: get_today_stats_def key_noon goal_one) (simp add: one_snapshot_def init_db_def)

lemma last_one: "last_progress (one_snapshot p) ''B00TEST001'' = Some p"
  by (simp add: last_progress_def one_snapshot_def)

lemma last_other: "last_progress (one_snapshot p) ''B00TEST002'' = None"
  by (simp add: last_progress_def one_snapshot_def)


lemma rows_one: "length (reading_progress (one_snapshot p)) = 1"
  by (simp add: one_snapshot_def)

subsection \<open>The previous snapshot\<close>

text \<open>
  The row \<open>last_progress\<close> reads is the first of the book's rows that no row of the
  book exceeds in \<open>recorded_at\<close>.
\<close>

lemma latest_row_mem: "latest_row rs = Some r \<Longrightarrow> r \<in> set rs"
  by (induction rs arbitrary: r) (auto split: option.splits if_splits)

lemma latest_row_head:
  assumes "\<forall>y \<in> set ys. recorded_at y \<le> recorded_at r"
  shows "latest_row (r # ys) = Some r"
proof (cases "latest_row ys")
  case None
  then show ?thesis by simp
next
  case (Some r')
  from latest_row_mem [OF Some] assms have "recorded_at r' \<le> recorded_at r" by simp
  with Some show ?thesis by simp
qed

lemma latest_row_first_max:
  assumes "\<forall>x \<in> set xs. recorded_at x < recorded_at r"
      and "\<forall>y \<in> set ys. recorded_at y \<le> recorded_at r"
  shows "latest_row (xs @ r # ys) = Some r"
  using assms(1)
proof (induction xs)
  case Nil
  show ?case using latest_row_head [OF assms(2)] by simp
next
  case (Cons x xs)
  then show ?case by simp
qed

lemma latest_row_none: "latest_row rs = None \<Longrightarrow> rs = []"
  by (cases rs) (auto split: option.splits if_splits)

lemma latest_row_split:
  "latest_row rs = Some r \<Longrightarrow>
     \<exists>xs ys. rs = xs @ r # ys \<and> (\<forall>x \<in> set xs. recorded_at x < recorded_at r)
       \<and> (\<forall>y \<in> set ys. recorded_at y \<le> recorded_at r)"
proof (induction rs arbitrary: r)
  case Nil
  then show ?case by simp
next
  case (Cons a rs)
  show ?case
  proof (cases "latest_row rs")
    case None
    with Cons.prems latest_row_none [OF None] have "a # rs = [] @ r # []" by simp
    then show ?thesis by (intro exI [of _ "[]"]) simp
  next
    case (Some r')
    from Cons.IH [OF Some] obtain xs ys where
      split: "rs = xs @ r' # ys" and before: "\<forall>x \<in> set xs. recorded_at x < recorded_at r'"
      and after: "\<forall>y \<in> set ys. recorded_at y \<le> recorded_at r'"
      by (elim exE conjE)
    show ?thesis
    proof (cases "recorded_at a < recorded_at r'")
      case True
      with Cons.prems Some have "r = r'" by simp
      with split have "a # rs = (a # xs) @ r # ys" by simp
      moreover have "\<forall>x \<in> set (a # xs). recorded_at x < recorded_at r"
        using True before \<open>r = r'\<close> by simp
      moreover have "\<forall>y \<in> set ys. recorded_at y \<le> recorded_at r"
        using after \<open>r = r'\<close> by simp
      ultimately show ?thesis by (intro exI conjI)
    next
      case False
      with Cons.prems Some have "r = a" by simp
      then have "a # rs = [] @ r # rs" by simp
      moreover have "\<forall>y \<in> set rs. recorded_at y \<le> recorded_at r"
        using False before after split \<open>r = a\<close> by (auto simp: less_imp_le)
      ultimately show ?thesis by (intro exI [of _ "[]"] exI [of _ rs]) simp
    qed
  qed
qed

text \<open>Every book with a snapshot has exactly one previous snapshot in this sense.\<close>

lemma previous_snapshot_exists:
  assumes "filter (\<lambda>r. progress_asin r = asin) (reading_progress db) \<noteq> []"
  shows "\<exists>xs prev ys. filter (\<lambda>r. progress_asin r = asin) (reading_progress db) = xs @ prev # ys
           \<and> (\<forall>x \<in> set xs. recorded_at x < recorded_at prev)
           \<and> (\<forall>y \<in> set ys. recorded_at y \<le> recorded_at prev)"
proof (cases "latest_row (filter (\<lambda>r. progress_asin r = asin) (reading_progress db))")
  case None
  from latest_row_none [OF None] assms show ?thesis by simp
next
  case (Some r)
  from latest_row_split [OF Some] show ?thesis by blast
qed



lemma latest_row_append:
  "\<forall>r \<in> set rs. recorded_at r < recorded_at x \<Longrightarrow> latest_row (rs @ [x]) = Some x"
  using latest_row_first_max [of rs x "[]"] by simp

subsection \<open>Snapshots and the daily delta\<close>

lemma record_progress_rows:
  assumes "record_progress cfg db now asin pos percent = Inr db'"
  shows "reading_progress db' = reading_progress db @
           [\<lparr> progress_asin = asin, position = pos, percent_complete = percent,
              recorded_at = now_stamp now \<rparr>]"
  using assms
  by (auto simp: record_progress_def get_today_stats_def Let_def add_pages_def
        mark_goal_met_def split: option.splits sum.splits if_splits)


















subsection \<open>The goal mark\<close>

text \<open>
  What holds of \<open>goal_met_at\<close>: a mark that is set survives every later
  \<open>record_progress\<close> with its value, and \<open>reset_daily_stats\<close> removes it.
\<close>

lemma goal_met_at_kept:
  assumes "record_progress cfg db now asin pos percent = Inr db'"
      and "goal_met_at_on db d = Some t"
  shows "goal_met_at_on db' d = Some t"
  using assms
  by (auto simp: record_progress_def get_today_stats_def Let_def goal_met_at_on_def
        add_pages_def mark_goal_met_def split: option.splits sum.splits if_splits)

lemma reset_daily_stats_clears: "goal_met_at_on (reset_daily_stats db) d = None"
  by (simp add: reset_daily_stats_def goal_met_at_on_def)

text \<open>
  C2.  The mark is not set by the call whose delta takes \<open>pages_read\<close> to the goal.
  With the default goal of 30 and a previous snapshot at position 10, recording
  position 45 commits \<open>pages_read = 35\<close> and no \<open>goal_met_at\<close>: the check reads
  the day through \<open>get_today_stats\<close>, which sees the table as it was before the call.
  Afterwards \<open>get_today_stats\<close> reports the goal as met, with no time of meeting it.
\<close>

theorem record_progress_goal_reached_unmarked:
  "record_progress default_config (one_snapshot 10) (noon 2) ''B00TEST001'' 45 (PyFloat 13) =
     Inr ((one_snapshot 10)\<lparr>reading_progress := reading_progress (one_snapshot 10) @
            [\<lparr> progress_asin = ''B00TEST001'', position = 45, percent_complete = PyFloat 13,
               recorded_at = 2 \<rparr>],
          daily_stats :=
            [738900 \<mapsto> \<lparr> pages_read = 35, goal_met_at = None, stats_updated = 2 \<rparr>]\<rparr>)
   \<and> get_today_stats default_config
        ((one_snapshot 10)\<lparr>reading_progress := reading_progress (one_snapshot 10) @
            [\<lparr> progress_asin = ''B00TEST001'', position = 45, percent_complete = PyFloat 13,
               recorded_at = 2 \<rparr>],
          daily_stats :=
            [738900 \<mapsto> \<lparr> pages_read = 35, goal_met_at = None, stats_updated = 2 \<rparr>]\<rparr>)
        (noon 3) =
     Inr \<lparr> stats_date = 738900, stats_pages_read = 35, stats_page_goal = 30,
           stats_goal_met = True, stats_goal_met_at = None, stats_pages_remaining = 0 \<rparr>"
proof (intro conjI)
  show "record_progress default_config (one_snapshot 10) (noon 2) ''B00TEST001'' 45 (PyFloat 13) =
     Inr ((one_snapshot 10)\<lparr>reading_progress := reading_progress (one_snapshot 10) @
            [\<lparr> progress_asin = ''B00TEST001'', position = 45, percent_complete = PyFloat 13,
               recorded_at = 2 \<rparr>],
          daily_stats :=
            [738900 \<mapsto> \<lparr> pages_read = 35, goal_met_at = None, stats_updated = 2 \<rparr>]\<rparr>)"
    apply (simp add: record_progress_def key_noon goal_one last_one stats_one sql_int_def
             sql_number_def)
    apply (simp add: add_pages_def mark_goal_met_def noon_def one_snapshot_def init_db_def)
    done
next
  have "get_today_key default_config
          ((one_snapshot 10)\<lparr>reading_progress := reading_progress (one_snapshot 10) @
            [\<lparr> progress_asin = ''B00TEST001'', position = 45, percent_complete = PyFloat 13,
               recorded_at = 2 \<rparr>],
          daily_stats :=
            [738900 \<mapsto> \<lparr> pages_read = 35, goal_met_at = None, stats_updated = 2 \<rparr>]\<rparr>)
          (noon 3) = Inr 738900"
    by (simp add: get_today_key_def one_snapshot_def init_reset_hour noon_def)
  then show "get_today_stats default_config
        ((one_snapshot 10)\<lparr>reading_progress := reading_progress (one_snapshot 10) @
            [\<lparr> progress_asin = ''B00TEST001'', position = 45, percent_complete = PyFloat 13,
               recorded_at = 2 \<rparr>],
          daily_stats :=
            [738900 \<mapsto> \<lparr> pages_read = 35, goal_met_at = None, stats_updated = 2 \<rparr>]\<rparr>)
        (noon 3) =
     Inr \<lparr> stats_date = 738900, stats_pages_read = 35, stats_page_goal = 30,
           stats_goal_met = True, stats_goal_met_at = None, stats_pages_remaining = 0 \<rparr>"
    by (simp add: get_today_stats_def goal_one py_minus_def sql_int_def)
qed

subsection \<open>The day key\<close>



subsection \<open>Merging book rows\<close>

text \<open>
  C7, as the code has it.  For a book that already has a row, \<open>upsert_book\<close> with a
  number of pages that is absent or fits a signed 64-bit integer replaces title and
  authors, and for each of \<open>total_pages\<close> and \<open>cover_url\<close> keeps the stored value when
  the new one is absent and stores the new one when it is present; no other book
  changes.  With a number of pages outside that range it raises \<open>OverflowError\<close>, and
  the row stays as it was.
\<close>

theorem upsert_book_merge:
  assumes "books db asin = Some old"
  shows "(sql_pages pages \<longrightarrow>
            (\<exists>db' new. upsert_book db ts asin ttl auths pages cover = Inr db' \<and>
               books db' asin = Some new \<and>
               title new = ttl \<and> authors new = auths \<and>
               total_pages new = (case pages of None \<Rightarrow> total_pages old | Some n \<Rightarrow> Some n) \<and>
               cover_url new = (case cover of None \<Rightarrow> cover_url old | Some u \<Rightarrow> Some u) \<and>
               (\<forall>other. other \<noteq> asin \<longrightarrow> books db' other = books db other)))
         \<and> (\<not> sql_pages pages \<longrightarrow>
              upsert_book db ts asin ttl auths pages cover = Inl OverflowError)"
  using assms
  by (auto simp: upsert_book_def coalesce_def sql_pages_def split: option.splits)

theorem upsert_book_merge_witness:
  "(\<exists>db' new. upsert_book great_book 2 ''B00TEST001'' ''The Great Book'' [''John Author'']
                  None None = Inr db'
          \<and> books db' ''B00TEST001'' = Some new
          \<and> total_pages new = Some 300
          \<and> cover_url new = Some ''https://example.com/cover1.jpg'')
   \<and> (\<exists>db' new. upsert_book great_book 2 ''B00TEST001'' ''The Great Book'' [''John Author'']
                  (Some 320) None = Inr db'
          \<and> books db' ''B00TEST001'' = Some new
          \<and> total_pages new = Some 320
          \<and> cover_url new = Some ''https://example.com/cover1.jpg'')
   \<and> upsert_book great_book 2 ''B00TEST001'' ''The Great Book'' [''John Author'']
         (Some 9223372036854775808) None = Inl OverflowError"
proof -
  have stored: "books great_book ''B00TEST001''
             = Some \<lparr> title = ''The Great Book'', authors = [''John Author''],
                      total_pages = Some 300,
                      cover_url = Some ''https://example.com/cover1.jpg'', last_updated = 1 \<rparr>"
    by (simp add: great_book_def)
  show ?thesis
    using upsert_book_merge [OF stored, of None 2 "''The Great Book''" "[''John Author'']" None]
          upsert_book_merge [OF stored, of "Some 320" 2 "''The Great Book''" "[''John Author'']" None]
          upsert_book_merge [OF stored, of "Some 9223372036854775808" 2 "''The Great Book''"
             "[''John Author'']" None]
    by (auto simp: sql_pages_def sql_int_def)
qed

text \<open>
  The claim that a present new value replaces the old one fails for a number of pages
  SQLite cannot hold: after the upsert with 300 pages, the upsert with \<open>2^63\<close> pages
  raises, and the stored 300 is not replaced.
\<close>

theorem upsert_book_pages_out_of_range:
  "upsert_book (init_db :: real ledger) 1 ''B00TEST001'' ''The Great Book''
     [''John Author''] (Some 300) (Some ''https://example.com/cover1.jpg'') = Inr great_book
   \<and> upsert_book great_book 2 ''B00TEST001'' ''The Great Book'' [''John Author'']
         (Some 9223372036854775808) None = Inl OverflowError"
  by (simp add: upsert_book_def sql_int_def great_book_def init_db_def)

section \<open>Properties of the extractor\<close>

subsection \<open>Searching and scanning\<close>




lemma search_hit: "m (c # cs) = Some r \<Longrightarrow> search m (c # cs) = Some r"
  by simp











lemma fill_result_shape:
  "(\<exists>c t k. f = Numeric c t k \<and> info_current (fill_result f dbg) = Some c
        \<and> info_total (fill_result f dbg) = Some t
        \<and> info_percent (fill_result f dbg) = Some (Math_round (js_mul (js_div c t) (Fin 100))))
   \<or> (\<exists>p. f = PercentOnly p \<and> info_current (fill_result f dbg) = Some p
        \<and> info_total (fill_result f dbg) = Some (Fin 100)
        \<and> info_percent (fill_result f dbg) = Some p)"
  by (cases f) (simp_all add: fill_result_def)

subsection \<open>Priority of the rules and the shape of the result\<close>







section \<open>Properties of the navigator\<close>

lemma twofa_is_auth:
  "list_ex (\<lambda>x. contains x u) twofa_pages \<Longrightarrow> list_ex (\<lambda>page. contains page u) auth_pages"
  by (auto simp: twofa_pages_def auth_pages_def)

lemma after_click:
  "after_try (act br a w tr) = (None, snd (perform br a w), tr @ [a])"
  by (cases "perform br a w") (simp add: after_try_def act_def)

text \<open>
  C8, as the code has it.  When the lower-cased URL of the page holds one of "ap/mfa",
  "ap/cvf", "ap/dcq", "challenge" and "verification", an attempt of the loop does one
  of three things, by the tests it makes on the URL in this order: with
  "read.amazon.com/kindle-library" in the URL it returns \<open>True\<close>; otherwise, with
  "landing" in the URL it clicks "Sign in with your account" and the loop goes on to
  the next attempt; otherwise it returns "2fa" at once, the page left as it is and
  nothing added to the list of browser actions, and the loop returns the same.  In no
  case is a field filled or a form submitted.
\<close>

theorem twofa_page_returns_at_once:
  assumes "\<exists>x \<in> set twofa_pages. contains x (py_lower (url_of br w))"
  shows "login_attempt cfg br w tr =
           (if contains ''read.amazon.com/kindle-library'' (py_lower (url_of br w))
            then (Some LoggedIn, w, tr)
            else if contains ''landing'' (py_lower (url_of br w))
            then (None, snd (perform br (Click landing_sel) w), tr @ [Click landing_sel])
            else (Some Needs2FA, w, tr))
         \<and> login_loop (Suc n) cfg br w tr =
           (if contains ''read.amazon.com/kindle-library'' (py_lower (url_of br w))
            then (LoggedIn, w, tr)
            else if contains ''landing'' (py_lower (url_of br w))
            then login_loop n cfg br (snd (perform br (Click landing_sel) w))
                   (tr @ [Click landing_sel])
            else (Needs2FA, w, tr))"
proof -
  have two: "list_ex (\<lambda>x. contains x (py_lower (url_of br w))) twofa_pages"
    using assms by (simp add: list_ex_iff)
  have one: "login_attempt cfg br w tr =
           (if contains ''read.amazon.com/kindle-library'' (py_lower (url_of br w))
            then (Some LoggedIn, w, tr)
            else if contains ''landing'' (py_lower (url_of br w))
            then (None, snd (perform br (Click landing_sel) w), tr @ [Click landing_sel])
            else (Some Needs2FA, w, tr))"
    using two twofa_is_auth [OF two] by (simp add: login_attempt_def Let_def after_click)
  then show ?thesis by simp
qed

lemma mfa_url_lower:
  "py_lower (url_of still_browser ''https://www.amazon.com/ap/mfa?arb=1'')
     = ''https://www.amazon.com/ap/mfa?arb=1''"
  by (simp add: still_browser_def py_lower_def py_lower_char_def)

lemma mfa_url_not_library:
  "\<not> contains ''read.amazon.com/kindle-library'' ''https://www.amazon.com/ap/mfa?arb=1''"
  by code_simp

lemma mfa_url_not_landing: "\<not> contains ''landing'' ''https://www.amazon.com/ap/mfa?arb=1''"
  by code_simp

lemma mfa_url_twofa: "contains ''ap/mfa'' ''https://www.amazon.com/ap/mfa?arb=1''"
  by code_simp

lemma landing_url_lower:
  "py_lower (url_of still_browser ''https://www.amazon.com/ap/mfa?ref=landing'')
     = ''https://www.amazon.com/ap/mfa?ref=landing''"
  by (simp add: still_browser_def py_lower_def py_lower_char_def)

lemma landing_url_not_library:
  "\<not> contains ''read.amazon.com/kindle-library'' ''https://www.amazon.com/ap/mfa?ref=landing''"
  by code_simp

lemma landing_url_landing: "contains ''landing'' ''https://www.amazon.com/ap/mfa?ref=landing''"
  by code_simp

lemma landing_url_twofa: "contains ''ap/mfa'' ''https://www.amazon.com/ap/mfa?ref=landing''"
  by code_simp

lemma library_url_lower:
  "py_lower (url_of still_browser ''https://read.amazon.com/kindle-library?verification=1'')
     = ''https://read.amazon.com/kindle-library?verification=1''"
  by (simp add: still_browser_def py_lower_def py_lower_char_def)

lemma library_url_library:
  "contains ''read.amazon.com/kindle-library''
     ''https://read.amazon.com/kindle-library?verification=1''"
  by code_simp

lemma library_url_twofa:
  "contains ''verification'' ''https://read.amazon.com/kindle-library?verification=1''"
  by code_simp

theorem twofa_page_returns_at_once_witness:
  "login_attempt default_config still_browser ''https://www.amazon.com/ap/mfa?arb=1'' []
     = (Some Needs2FA, ''https://www.amazon.com/ap/mfa?arb=1'', [])
   \<and> login_loop 5 default_config still_browser ''https://www.amazon.com/ap/mfa?arb=1'' []
     = (Needs2FA, ''https://www.amazon.com/ap/mfa?arb=1'', [])
   \<and> login_attempt default_config still_browser ''https://www.amazon.com/ap/mfa?ref=landing'' []
     = (None, ''https://www.amazon.com/ap/mfa?ref=landing'', [Click landing_sel])
   \<and> login_attempt default_config still_browser
        ''https://read.amazon.com/kindle-library?verification=1'' []
     = (Some LoggedIn, ''https://read.amazon.com/kindle-library?verification=1'', [])"
proof -
  have a: "\<exists>x \<in> set twofa_pages.
          contains x (py_lower (url_of still_browser ''https://www.amazon.com/ap/mfa?arb=1''))"
    using mfa_url_twofa by (simp add: mfa_url_lower twofa_pages_def)
  have b: "\<exists>x \<in> set twofa_pages.
          contains x (py_lower (url_of still_browser ''https://www.amazon.com/ap/mfa?ref=landing''))"
    using landing_url_twofa by (simp add: landing_url_lower twofa_pages_def)
  have c: "\<exists>x \<in> set twofa_pages.
          contains x (py_lower (url_of still_browser
                                  ''https://read.amazon.com/kindle-library?verification=1''))"
    using library_url_twofa by (simp add: library_url_lower twofa_pages_def)
  have plain: "login_attempt default_config still_browser ''https://www.amazon.com/ap/mfa?arb=1'' []
     = (Some Needs2FA, ''https://www.amazon.com/ap/mfa?arb=1'', [])
   \<and> login_loop 5 default_config still_browser ''https://www.amazon.com/ap/mfa?arb=1'' []
     = (Needs2FA, ''https://www.amazon.com/ap/mfa?arb=1'', [])"
    using twofa_page_returns_at_once [OF a, of default_config "[]" 4]
          mfa_url_not_library mfa_url_not_landing
    by (simp add: mfa_url_lower eval_nat_numeral)
  have landing: "login_attempt default_config still_browser
                   ''https://www.amazon.com/ap/mfa?ref=landing'' []
     = (None, ''https://www.amazon.com/ap/mfa?ref=landing'', [Click landing_sel])"
    using twofa_page_returns_at_once [OF b, of default_config "[]" 4, THEN conjunct1]
          landing_url_not_library landing_url_landing
    by (simp add: landing_url_lower) (simp add: still_browser_def)
  have lib: "login_attempt default_config still_browser
        ''https://read.amazon.com/kindle-library?verification=1'' []
     = (Some LoggedIn, ''https://read.amazon.com/kindle-library?verification=1'', [])"
    using twofa_page_returns_at_once [OF c, of default_config "[]" 4, THEN conjunct1]
          library_url_library
    by (simp add: library_url_lower)
  from plain landing lib show ?thesis by simp
qed

text \<open>
  The claim that every such URL makes the loop return "2fa" fails on a verification
  URL that also holds "landing": each of the five attempts clicks "Sign in with your
  account", and \<open>is_logged_in\<close> returns \<open>False\<close>.
\<close>

lemma landing_attempt:
  "login_attempt cfg still_browser ''https://www.amazon.com/ap/mfa?ref=landing'' tr
     = (None, ''https://www.amazon.com/ap/mfa?ref=landing'', tr @ [Click landing_sel])"
  using landing_url_not_library landing_url_landing
  by (simp add: login_attempt_def Let_def landing_url_lower after_click)
     (simp add: still_browser_def)

theorem verification_url_with_landing:
  "contains ''ap/mfa'' (py_lower ''https://www.amazon.com/ap/mfa?ref=landing'')
   \<and> is_logged_in default_config still_browser (Some ''https://www.amazon.com/ap/mfa?ref=landing'')
     = (NotLoggedIn, Some ''https://www.amazon.com/ap/mfa?ref=landing'',
        [Goto LIBRARY_URL, Click landing_sel, Click landing_sel, Click landing_sel,
         Click landing_sel, Click landing_sel])"
proof
  show "contains ''ap/mfa'' (py_lower ''https://www.amazon.com/ap/mfa?ref=landing'')"
    using landing_url_twofa landing_url_lower by (simp add: still_browser_def)
  have "after_try (act still_browser (Goto LIBRARY_URL)
                     ''https://www.amazon.com/ap/mfa?ref=landing'' [])
          = (None, ''https://www.amazon.com/ap/mfa?ref=landing'', [Goto LIBRARY_URL])"
    by (simp add: after_click) (simp add: still_browser_def)
  then show "is_logged_in default_config still_browser
               (Some ''https://www.amazon.com/ap/mfa?ref=landing'')
     = (NotLoggedIn, Some ''https://www.amazon.com/ap/mfa?ref=landing'',
        [Goto LIBRARY_URL, Click landing_sel, Click landing_sel, Click landing_sel,
         Click landing_sel, Click landing_sel])"
    by (simp add: is_logged_in_def eval_nat_numeral landing_attempt)
qed

section \<open>Properties of the orchestrator\<close>

subsection \<open>What the ledger calls of an item keep\<close>

lemma settings_ok_cong:
  "settings_table db' = settings_table db \<Longrightarrow> settings_ok cfg db' = settings_ok cfg db"
  by (simp add: settings_ok_def setting_int_def get_setting_def)

lemma upsert_book_keeps:
  assumes "upsert_book db ts asin ttl auths pages cover = Inr db'"
  shows "settings_table db' = settings_table db" and "reading_progress db' = reading_progress db"
    and "daily_stats db' = daily_stats db"
  using assms by (auto simp: upsert_book_def split: option.splits if_splits)

lemma upsert_book_returns:
  "sql_pages pages \<Longrightarrow> \<exists>db'. upsert_book db ts asin ttl auths pages cover = Inr db'"
  by (auto simp: upsert_book_def sql_pages_def split: option.splits)

lemma upsert_book_raises:
  "\<not> sql_pages pages \<Longrightarrow> upsert_book db ts asin ttl auths pages cover = Inl OverflowError"
  by (auto simp: upsert_book_def sql_pages_def split: option.splits)

lemma record_progress_settings:
  "record_progress cfg db now asin pos percent = Inr db' \<Longrightarrow> settings_table db' = settings_table db"
  by (auto simp: record_progress_def get_today_stats_def Let_def add_pages_def
        mark_goal_met_def split: option.splits sum.splits if_splits)

lemma last_progress_stored:
  assumes "last_progress db asin = Some prev"
  shows "\<exists>r \<in> set (reading_progress db). position r = prev"
proof -
  from assms obtain r where
    l: "latest_row (filter (\<lambda>r. progress_asin r = asin) (reading_progress db)) = Some r"
    and p: "position r = prev"
    by (auto simp: last_progress_def)
  from latest_row_mem [OF l] have "r \<in> set (reading_progress db)" by simp
  then show ?thesis using p by auto
qed

lemma get_today_stats_returns:
  assumes "get_today_key cfg db now = Inr today"
      and "setting_int db ''daily_page_goal'' (daily_page_goal cfg) = Inr g" and "float_ok g"
  shows "\<exists>stats. get_today_stats cfg db now = Inr stats"
  using assms by (simp add: get_today_stats_def py_minus_def split: option.splits)

lemma record_progress_returns:
  assumes "settings_ok cfg db" and "1 < now_date now" and "positions_ok db"
      and "0 \<le> pos" and "sql_int pos" and "sql_number percent"
  shows "\<exists>db'. record_progress cfg db now asin pos percent = Inr db'"
proof -
  from assms(1) obtain h g where
    h: "setting_int db ''day_reset_hour'' (day_reset_hour cfg) = Inr h" and
    g: "setting_int db ''daily_page_goal'' (daily_page_goal cfg) = Inr g" and
    f: "float_ok g"
    by (auto simp: settings_ok_def)
  have key: "get_today_key cfg db now =
               Inr (if h \<le> int (now_hour now) then now_date now else now_date now - 1)"
    using h assms(2) by (simp add: get_today_key_def)
  from get_today_stats_returns [OF key g f] obtain stats where
    st: "get_today_stats cfg db now = Inr stats" by (elim exE)
  have fits: "sql_int (pos - prev)" if "last_progress db asin = Some prev" and "prev < pos" for prev
  proof -
    from last_progress_stored [OF that(1)] assms(3) have "0 \<le> prev"
      by (auto simp: positions_ok_def list_all_iff)
    with that(2) assms(5) show ?thesis by (simp add: sql_int_def)
  qed
  show ?thesis
    using assms(5,6) fits
    by (auto simp: record_progress_def key g st Let_def split: option.splits)
qed

lemma record_progress_positions:
  assumes "record_progress cfg db now asin pos percent = Inr db'"
      and "positions_ok db" and "0 \<le> pos"
  shows "positions_ok db'"
  using assms(2,3) by (simp add: positions_ok_def record_progress_rows [OF assms(1)])

lemma positions_ok_cong:
  "reading_progress db' = reading_progress db \<Longrightarrow> positions_ok db' = positions_ok db"
  by (simp add: positions_ok_def)

lemma save_progress_returns:
  assumes "settings_ok cfg db" and "1 < now_date (item_clock ie)" and "positions_ok db"
      and "0 \<le> cur" and "sql_int cur" and "sql_pages (progress_total info)"
      and "sql_number (progress_percent info)"
  shows "\<exists>db'. save_progress cfg ie book info cur db = (db', None)
               \<and> settings_table db' = settings_table db \<and> positions_ok db'
               \<and> reading_progress db' = reading_progress db @
                    [\<lparr> progress_asin = book_asin book, position = cur,
                       percent_complete = progress_percent info,
                       recorded_at = now_stamp (item_clock ie) \<rparr>]"
proof -
  let ?refined = "(case progress_total info of
                       None \<Rightarrow> Inr db
                     | Some t \<Rightarrow>
                         if t \<noteq> 0 \<and> t \<noteq> 100
                         then upsert_book db (now_stamp (item_clock ie)) (book_asin book)
                                (book_title book) (book_authors book) (Some t) (book_coverUrl book)
                         else Inr db)"
  have "\<exists>dbu. ?refined = Inr dbu \<and> settings_table dbu = settings_table db
               \<and> reading_progress dbu = reading_progress db"
  proof (cases "progress_total info")
    case None
    then show ?thesis by simp
  next
    case (Some t)
    with assms(6) have "sql_pages (Some t)" by simp
    from upsert_book_returns [OF this] obtain dbu where
      u: "upsert_book db (now_stamp (item_clock ie)) (book_asin book)
            (book_title book) (book_authors book) (Some t) (book_coverUrl book) = Inr dbu"
      by blast
    show ?thesis
      using Some u upsert_book_keeps(1,2) [OF u] by simp
  qed
  then obtain dbu where ref: "?refined = Inr dbu"
    and st: "settings_table dbu = settings_table db"
    and rows: "reading_progress dbu = reading_progress db"
    by (elim exE conjE)
  have ok: "settings_ok cfg dbu" using assms(1) by (simp only: settings_ok_cong [OF st])
  have pos: "positions_ok dbu" using assms(3) by (simp only: positions_ok_cong [OF rows])
  from record_progress_returns [OF ok assms(2) pos assms(4,5,7)] obtain db' where
    r: "record_progress cfg dbu (item_clock ie) (book_asin book) cur (progress_percent info) = Inr db'"
    by blast
  have "save_progress cfg ie book info cur db = (db', None)"
    unfolding save_progress_def Let_def ref using r by simp
  moreover have "settings_table db' = settings_table db"
    using record_progress_settings [OF r] st by simp
  moreover have "positions_ok db'"
    by (rule record_progress_positions [OF r pos assms(4)])
  moreover have "reading_progress db' = reading_progress db @
                    [\<lparr> progress_asin = book_asin book, position = cur,
                       percent_complete = progress_percent info,
                       recorded_at = now_stamp (item_clock ie) \<rparr>]"
    using record_progress_rows [OF r] rows by simp
  ultimately show ?thesis by (intro exI conjI)
qed


lemma item_safe_mono:
  assumes "settings_table db' = settings_table db" and "positions_ok db \<longrightarrow> positions_ok db'"
      and "item_safe cfg db env book j"
  shows "item_safe cfg db' env book j"
  using assms(2,3) settings_ok_cong [OF assms(1), of cfg]
  by (auto simp: item_safe_def split: reader_outcome.splits option.splits)

lemma items_safe_mono:
  assumes "settings_table db' = settings_table db" and "positions_ok db \<longrightarrow> positions_ok db'"
      and "items_safe cfg db env i bs"
  shows "items_safe cfg db' env i bs"
  using assms(3) item_safe_mono [OF assms(1,2)] by (auto simp: items_safe_def list_all_iff)

lemma items_safe_Cons:
  "items_safe cfg db env i (b # bs) = (item_safe cfg db env b i \<and> items_safe cfg db env (Suc i) bs)"
  by (simp add: items_safe_def)

subsection \<open>The loop over the books\<close>

lemma limited_titles_Cons:
  "limited_titles env i (b # bs) =
     (if outcome_at env i = LicenseLimit then [take 40 (book_title b)] else [])
     @ limited_titles env (Suc i) bs"
  by (simp add: limited_titles_def)

lemma found_count_Cons:
  "found_count env i (b # bs) =
     (if has_progress (outcome_at env i) then 1 else 0) + found_count env (Suc i) bs"
  by (simp add: found_count_def)

lemma new_rows_Cons:
  "new_rows env i (b # bs) =
     (case outcome_at env i of
        Info info \<Rightarrow>
          (case progress_current info of
             Some cur \<Rightarrow>
               [\<lparr> progress_asin = book_asin b, position = cur,
                  percent_complete = progress_percent info,
                  recorded_at = now_stamp (item_clock (env i)) \<rparr>]
           | None \<Rightarrow> [])
      | _ \<Rightarrow> [])
     @ new_rows env (Suc i) bs"
  by (simp add: new_rows_def split: reader_outcome.splits option.splits)

lemma scrape_books_raise:
  assumes "upsert_book (pass_db st) (upsert_stamp (env i)) (book_asin book) (book_title book)
             (book_authors book) (book_totalPages book) (book_coverUrl book) = Inl e"
  shows "scrape_books cfg env i (book # rest) st = (st, Some e)"
  using assms by (simp add: Let_def)

lemma scrape_books_skip:
  assumes "upsert_book (pass_db st) (upsert_stamp (env i)) (book_asin book) (book_title book)
             (book_authors book) (book_totalPages book) (book_coverUrl book) = Inr db1"
      and "\<not> has_progress (outcome_at env i)"
  shows "scrape_books cfg env i (book # rest) st =
           scrape_books cfg env (Suc i) rest
             (st\<lparr>pass_db := db1,
                 books_with_license_limit := books_with_license_limit st @
                   (if outcome_at env i = LicenseLimit then [take 40 (book_title book)] else [])\<rparr>)"
  using assms
  by (cases "outcome_at env i")
     (auto simp: outcome_at_def has_progress_def Let_def split: option.splits)

lemma scrape_books_found:
  assumes "upsert_book (pass_db st) (upsert_stamp (env i)) (book_asin book) (book_title book)
             (book_authors book) (book_totalPages book) (book_coverUrl book) = Inr db1"
      and "outcome_at env i = Info info" and "progress_current info = Some cur"
      and "save_progress cfg (env i) book info cur db1 = (db2, None)"
  shows "scrape_books cfg env i (book # rest) st =
           scrape_books cfg env (Suc i) rest
             (st\<lparr>pass_db := db2, books_with_progress := books_with_progress st + 1\<rparr>)"
  using assms by (simp add: outcome_at_def Let_def)


lemma scrape_books_ok:
  assumes "items_safe cfg (pass_db st) env i bs"
  shows "\<exists>st'. scrape_books cfg env i bs st = (st', None)
           \<and> books_with_license_limit st' = books_with_license_limit st @ limited_titles env i bs
           \<and> books_with_progress st' = books_with_progress st + int (found_count env i bs)
           \<and> reading_progress (pass_db st') = reading_progress (pass_db st) @ new_rows env i bs
           \<and> settings_table (pass_db st') = settings_table (pass_db st)"
  using assms
proof (induction bs arbitrary: i st)
  case Nil
  then show ?case by (simp add: limited_titles_def found_count_def new_rows_def)
next
  case (Cons book rest)
  from Cons.prems have here: "item_safe cfg (pass_db st) env book i"
    and later: "items_safe cfg (pass_db st) env (Suc i) rest"
    by (simp_all add: items_safe_Cons)
  from here have "sql_pages (book_totalPages book)" by (simp add: item_safe_def)
  from upsert_book_returns [OF this] obtain db1 where
    u: "upsert_book (pass_db st) (upsert_stamp (env i)) (book_asin book) (book_title book)
          (book_authors book) (book_totalPages book) (book_coverUrl book) = Inr db1"
    by blast
  note keeps = upsert_book_keeps [OF u]
  show ?case
  proof (cases "has_progress (outcome_at env i)")
    case False
    let ?st1 = "st\<lparr>pass_db := db1,
                 books_with_license_limit := books_with_license_limit st @
                   (if outcome_at env i = LicenseLimit then [take 40 (book_title book)] else [])\<rparr>"
    have "positions_ok (pass_db st) \<longrightarrow> positions_ok db1"
      by (simp add: positions_ok_cong [OF keeps(2)])
    from items_safe_mono [OF keeps(1) this later]
    have "items_safe cfg (pass_db ?st1) env (Suc i) rest" by simp
    from Cons.IH [OF this] obtain st' where
      r: "scrape_books cfg env (Suc i) rest ?st1 = (st', None)"
      and l: "books_with_license_limit st' = books_with_license_limit ?st1 @ limited_titles env (Suc i) rest"
      and p: "books_with_progress st' = books_with_progress ?st1 + int (found_count env (Suc i) rest)"
      and n: "reading_progress (pass_db st') = reading_progress (pass_db ?st1) @ new_rows env (Suc i) rest"
      and t: "settings_table (pass_db st') = settings_table (pass_db ?st1)"
      by blast
    have rows: "new_rows env i (book # rest) = new_rows env (Suc i) rest"
      using False by (simp add: new_rows_Cons has_progress_def split: reader_outcome.splits option.splits)
    show ?thesis
      apply (rule exI [of _ st'])
      apply (simp only: scrape_books_skip [OF u False] r l p n t rows limited_titles_Cons found_count_Cons)
      using False keeps apply simp
      done
  next
    case True
    then obtain info cur where o: "outcome_at env i = Info info" and c: "progress_current info = Some cur"
      by (auto simp: has_progress_def split: reader_outcome.splits)
    from here o c have ok: "settings_ok cfg (pass_db st)" and pos: "positions_ok (pass_db st)"
      and day: "1 < now_date (item_clock (env i))" and cur: "0 \<le> cur" "sql_int cur"
      and tot: "sql_pages (progress_total info)" and pct: "sql_number (progress_percent info)"
      by (simp_all add: item_safe_def)
    have ok1: "settings_ok cfg db1"
      using ok by (simp only: settings_ok_cong [OF keeps(1)])
    have pos1: "positions_ok db1"
      using pos by (simp only: positions_ok_cong [OF keeps(2)])
    from save_progress_returns [OF ok1 day pos1 cur tot pct, of book]
    obtain db2 where s: "save_progress cfg (env i) book info cur db1 = (db2, None)"
      and t2: "settings_table db2 = settings_table db1" and pos2: "positions_ok db2"
      and rows1: "reading_progress db2 = reading_progress db1 @
           [\<lparr> progress_asin = book_asin book, position = cur,
              percent_complete = progress_percent info,
              recorded_at = now_stamp (item_clock (env i)) \<rparr>]"
      by blast
    have t': "settings_table db2 = settings_table (pass_db st)" using t2 keeps(1) by simp
    have rows2: "reading_progress db2 = reading_progress (pass_db st) @
           [\<lparr> progress_asin = book_asin book, position = cur,
              percent_complete = progress_percent info,
              recorded_at = now_stamp (item_clock (env i)) \<rparr>]"
      using rows1 keeps(2) by simp
    let ?st1 = "st\<lparr>pass_db := db2, books_with_progress := books_with_progress st + 1\<rparr>"
    have "positions_ok (pass_db st) \<longrightarrow> positions_ok db2" using pos2 by simp
    from items_safe_mono [OF t' this later]
    have "items_safe cfg (pass_db ?st1) env (Suc i) rest" by simp
    from Cons.IH [OF this] obtain st' where
      r: "scrape_books cfg env (Suc i) rest ?st1 = (st', None)"
      and l: "books_with_license_limit st' = books_with_license_limit ?st1 @ limited_titles env (Suc i) rest"
      and p: "books_with_progress st' = books_with_progress ?st1 + int (found_count env (Suc i) rest)"
      and n: "reading_progress (pass_db st') = reading_progress (pass_db ?st1) @ new_rows env (Suc i) rest"
      and t: "settings_table (pass_db st') = settings_table (pass_db ?st1)"
      by blast
    show ?thesis
      apply (rule exI [of _ st'])
      apply (simp only: scrape_books_found [OF u o c s] r l p n t limited_titles_Cons found_count_Cons
               new_rows_Cons)
      using True o c rows2 t' apply simp
      done
  qed
qed

lemma tag_before [simp]:
  "tag (book_progress_event idx n ttl asin) =
     (Some (PStr ''book_progress''), Some (PInt (int idx + 1)), Some (PInt (int n)))"
  by (simp add: tag_def book_progress_event_def)

lemma tag_after [simp]:
  "tag (book_complete_event idx n ttl asin pct ok err) =
     (Some (PStr ''book_complete''), Some (PInt (int idx + 1)), Some (PInt (int n)))"
  by (simp add: tag_def book_complete_event_def)

lemma item_tags_Cons:
  "item_tags n (j # js) =
     (Some (PStr ''book_progress''), Some (PInt (int j)), Some (PInt (int n)))
     # (Some (PStr ''book_complete''), Some (PInt (int j)), Some (PInt (int n)))
     # item_tags n js"
  by (simp add: item_tags_def)

lemma stream_books_state:
  "scrape_books cfg env idx bs st = snd (stream_books cfg env n idx bs st)"
  by (induction bs arbitrary: idx st)
     (auto simp: Let_def split: reader_outcome.splits option.splits prod.splits sum.splits)

lemma stream_books_step:
  assumes "stream_books cfg env n idx (book # rest) st = (evs, st', None)"
  shows "\<exists>evs' st1 pct ok err.
           evs = book_progress_event idx n (take 40 (book_title book)) (book_asin book)
                 # book_complete_event idx n (take 40 (book_title book)) (book_asin book) pct ok err
                 # evs'
           \<and> stream_books cfg env n (Suc idx) rest st1 = (evs', st', None)"
  using assms
  by (auto simp: Let_def split: reader_outcome.splits option.splits prod.splits sum.splits)

lemma stream_books_tags:
  "stream_books cfg env n idx bs st = (evs, st', None) \<Longrightarrow>
     map tag evs = item_tags n [Suc idx ..< Suc idx + length bs]"
proof (induction bs arbitrary: idx st evs)
  case Nil
  then show ?case by (simp add: item_tags_def)
next
  case (Cons book rest)
  have up: "[Suc idx ..< Suc idx + length (book # rest)]
              = Suc idx # [Suc (Suc idx) ..< Suc (Suc idx) + length rest]"
    by (subst upt_rec) simp
  from stream_books_step [OF Cons.prems] obtain evs' st1 pct ok err where
    evs: "evs = book_progress_event idx n (take 40 (book_title book)) (book_asin book)
                 # book_complete_event idx n (take 40 (book_title book)) (book_asin book) pct ok err
                 # evs'"
    and rec: "stream_books cfg env n (Suc idx) rest st1 = (evs', st', None)"
    by blast
  have "map tag evs' = item_tags n [Suc (Suc idx) ..< Suc (Suc idx) + length rest]"
    by (rule Cons.IH [OF rec])
  then show ?case
    unfolding up item_tags_Cons evs by simp
qed

lemma not_terminal_before [simp]: "\<not> terminal (book_progress_event idx n ttl asin)"
  by (simp add: terminal_def event_name_def book_progress_event_def)

lemma not_terminal_after [simp]: "\<not> terminal (book_complete_event idx n ttl asin pct ok err)"
  by (simp add: terminal_def event_name_def book_complete_event_def)

lemma stream_books_not_terminal:
  "stream_books cfg env n idx bs st = (evs, r) \<Longrightarrow> \<forall>e \<in> set evs. \<not> terminal e"
proof (induction bs arbitrary: idx st evs r)
  case Nil
  then show ?case by simp
next
  case (Cons book rest)
  from Cons.prems show ?case
    by (auto simp: Let_def dest!: Cons.IH
          split: reader_outcome.splits option.splits prod.splits sum.splits)
qed

lemma safe_items_not_fatal:
  assumes "ensure_login cfg env = Inr None" and "library env = Inr listing"
      and "items_safe cfg db (item_at env) 0 listing"
  shows "\<not> fatal_failure cfg env db"
proof -
  have "items_safe cfg (pass_db (fresh_pass db)) (item_at env) 0 listing"
    using assms(3) by (simp add: fresh_pass_def)
  from scrape_books_ok [OF this] show ?thesis
    using assms(1,2) by (auto simp: fatal_failure_def)
qed

lemma tag_started [simp]: "tag (started_event n t) = (Some (PStr ''started''), None, None)"
  by (simp add: tag_def started_event_def)

lemma tag_completed [simp]:
  "tag (completed_event n st d t) = (Some (PStr ''completed''), None, None)"
  by (simp add: tag_def completed_event_def)

lemma not_terminal_started [simp]: "\<not> terminal (started_event n t)"
  by (simp add: terminal_def event_name_def started_event_def)

lemma streaming_clean:
  assumes "\<not> fatal_failure cfg env db"
  shows "\<exists>listing. library env = Inr listing
           \<and> map tag (fst (scrape_and_save_streaming cfg env db)) =
               (Some (PStr ''started''), None, None)
               # item_tags (length listing) [1 ..< Suc (length listing)]
               @ [(Some (PStr ''completed''), None, None)]
           \<and> map_of (hd (fst (scrape_and_save_streaming cfg env db))) ''total_books''
               = Some (PInt (int (length listing)))"
proof -
  from assms obtain listing where
    login: "ensure_login cfg env = Inr None" and lib: "library env = Inr listing"
    and loop: "snd (scrape_books cfg (item_at env) 0 listing (fresh_pass db)) = None"
    by (auto simp: fatal_failure_def split: sum.splits option.splits)
  obtain evs st e where
    run: "stream_books cfg (item_at env) (length listing) 0 listing (fresh_pass db) = (evs, st, e)"
    by (cases "stream_books cfg (item_at env) (length listing) 0 listing (fresh_pass db)") auto
  have "e = None"
    using loop run stream_books_state [of cfg "item_at env" 0 listing "fresh_pass db" "length listing"]
    by simp
  with run have run': "stream_books cfg (item_at env) (length listing) 0 listing (fresh_pass db)
                        = (evs, st, None)" by simp
  have tags: "map tag evs = item_tags (length listing) [Suc 0 ..< Suc 0 + length listing]"
    by (rule stream_books_tags [OF run'])
  have out: "fst (scrape_and_save_streaming cfg env db) =
               started_event (length listing) (started_clock env) # evs
               @ [completed_event (length listing) st (duration_seconds env) (finished_clock env)]"
    using login lib run' by (simp add: scrape_and_save_streaming_def fresh_pass_def)
  have first: "map_of (hd (fst (scrape_and_save_streaming cfg env db))) ''total_books''
                = Some (PInt (int (length listing)))"
    by (simp add: out started_event_def)
  have all_tags: "map tag (fst (scrape_and_save_streaming cfg env db)) =
               (Some (PStr ''started''), None, None)
               # item_tags (length listing) [1 ..< Suc (length listing)]
               @ [(Some (PStr ''completed''), None, None)]"
    using tags by (simp add: out)
  show ?thesis
    by (intro exI [of _ listing] conjI lib all_tags first)
qed

lemma ends_with_error:
  "evs = pre @ [error_event msg] \<Longrightarrow> \<forall>e \<in> set pre. \<not> terminal e \<Longrightarrow>
     \<exists>pre msg. evs = pre @ [error_event msg] \<and> (\<forall>e \<in> set pre. \<not> terminal e)"
  by (intro exI conjI)

lemma streaming_fatal:
  assumes "fatal_failure cfg env db"
  shows "\<exists>pre msg. fst (scrape_and_save_streaming cfg env db) = pre @ [error_event msg]
           \<and> (\<forall>e \<in> set pre. \<not> terminal e)"
proof (cases "ensure_login cfg env")
  case (Inl msg)
  then have "fst (scrape_and_save_streaming cfg env db) = [] @ [error_event (PStr msg)]"
    by (simp add: scrape_and_save_streaming_def)
  then show ?thesis by (rule ends_with_error) simp
next
  case (Inr r)
  show ?thesis
  proof (cases r)
    case (Some e)
    with Inr have "fst (scrape_and_save_streaming cfg env db) = [] @ [error_event (PMessage e)]"
      by (simp add: scrape_and_save_streaming_def)
    then show ?thesis by (rule ends_with_error) simp
  next
    case None
    show ?thesis
    proof (cases "library env")
      case (Inl e)
      with Inr None have "fst (scrape_and_save_streaming cfg env db) = [] @ [error_event (PMessage e)]"
        by (simp add: scrape_and_save_streaming_def)
      then show ?thesis by (rule ends_with_error) simp
    next
      case lib: (Inr listing)
      obtain evs st e where
        run: "stream_books cfg (item_at env) (length listing) 0 listing (fresh_pass db) = (evs, st, e)"
        by (cases "stream_books cfg (item_at env) (length listing) 0 listing (fresh_pass db)") auto
      have "e \<noteq> None"
        using assms Inr None lib run
          stream_books_state [of cfg "item_at env" 0 listing "fresh_pass db" "length listing"]
        by (simp add: fatal_failure_def)
      then obtain x where e: "e = Some x" by auto
      have quiet: "\<forall>ev \<in> set evs. \<not> terminal ev"
        by (rule stream_books_not_terminal [OF run])
      have "fst (scrape_and_save_streaming cfg env db) =
              (started_event (length listing) (started_clock env) # evs) @ [error_event (PMessage x)]"
        using Inr None lib run e by (simp add: scrape_and_save_streaming_def fresh_pass_def)
      moreover have "\<forall>ev \<in> set (started_event (length listing) (started_clock env) # evs). \<not> terminal ev"
        using quiet by simp
      ultimately show ?thesis by (rule ends_with_error)
    qed
  qed
qed

lemma batch_clean:
  assumes "ensure_login cfg env = Inr None" and "library env = Inr listing"
      and "items_safe cfg db (item_at env) 0 listing"
  shows "\<exists>db'. scrape_and_save cfg env db =
               ([(''success'', PBool True), (''books_scraped'', PInt (int (length listing))),
                 (''books_with_progress'', PInt (int (found_count (item_at env) 0 listing))),
                 (''timestamp'', PTime (finished_clock env))]
                @ (if limited_titles (item_at env) 0 listing \<noteq> []
                   then [(''license_limit_books'', PStrs (limited_titles (item_at env) 0 listing))]
                   else []), db')
           \<and> reading_progress db' = reading_progress db @ new_rows (item_at env) 0 listing"
proof -
  have "items_safe cfg (pass_db (fresh_pass db)) (item_at env) 0 listing"
    using assms(3) by (simp add: fresh_pass_def)
  from scrape_books_ok [OF this] obtain st' where
    r: "scrape_books cfg (item_at env) 0 listing (fresh_pass db) = (st', None)"
    and l: "books_with_license_limit st' = books_with_license_limit (fresh_pass db) @ limited_titles (item_at env) 0 listing"
    and p: "books_with_progress st' = books_with_progress (fresh_pass db) + int (found_count (item_at env) 0 listing)"
    and n: "reading_progress (pass_db st') = reading_progress (pass_db (fresh_pass db)) @ new_rows (item_at env) 0 listing"
    by (elim exE conjE)
  have "scrape_and_save cfg env db = (success_result (length listing) st' (finished_clock env), pass_db st')"
    using assms(1,2) r by (simp add: scrape_and_save_def fresh_pass_def)
  then show ?thesis
    using l p n by (simp add: success_result_def fresh_pass_def)
qed



lemma batch_timestamp:
  "map_of (fst (scrape_and_save cfg env db)) ''timestamp'' = Some (PTime (finished_clock env))"
  by (auto simp: scrape_and_save_def failure_result_def success_result_def
        split: sum.splits option.splits prod.splits)

subsection \<open>Evaluation on the fixtures\<close>

lemma shelf_login: "ensure_login default_config shelf_env = Inr None"
  by (simp add: ensure_login_def shelf_env_def)

lemma shelf_library: "library shelf_env = Inr shelf"
  by (simp add: shelf_env_def)

lemma shelf_length: "length shelf = 3"
  by (simp add: shelf_def)

lemma float_ok_30: "float_ok 30"
  by code_simp

lemma shelf_settings: "settings_ok default_config (one_snapshot p)"
  using goal_one [of p] float_ok_30 by (simp add: settings_ok_def one_snapshot_def init_reset_hour)

lemma shelf_outcomes:
  "outcome_at shelf_items 0 = Info \<lparr> progress_current = Some 25, progress_total = Some 300,
                                      progress_percent = PyInt 8 \<rparr>"
  "outcome_at shelf_items (Suc 0) = LicenseLimit"
  "outcome_at shelf_items (Suc (Suc 0)) = Info \<lparr> progress_current = None, progress_total = None,
                                      progress_percent = PyInt 0 \<rparr>"
  by (simp_all add: outcome_at_def shelf_items_def shelf_page_def get_book_progress_from_reader_def
        license_dialog_def)

lemma shelf_safe: "items_safe default_config (one_snapshot 10) (item_at shelf_env) 0 shelf"
  by (simp add: items_safe_def shelf_def item_safe_def shelf_env_def shelf_outcomes shelf_settings
        sql_pages_def sql_int_def sql_number_def)
     (simp add: shelf_items_def noon_def positions_ok_def one_snapshot_def)

lemma shelf_not_fatal: "\<not> fatal_failure default_config shelf_env (one_snapshot 10)"
  by (rule safe_items_not_fatal [OF shelf_login shelf_library shelf_safe])

lemma twofa_fatal: "fatal_failure cfg twofa_env db"
  by (simp add: fatal_failure_def ensure_login_def twofa_env_def shelf_env_def)



lemma shelf_rows:
  "new_rows (item_at shelf_env) 0 shelf =
     [\<lparr> progress_asin = ''B00TEST001'', position = 25, percent_complete = PyInt 8,
        recorded_at = 2 \<rparr>]"
  by (simp add: new_rows_def shelf_def shelf_env_def shelf_outcomes)
     (simp add: shelf_items_def noon_def)

lemma tags_three:
  "item_tags 3 [1 ..< Suc 3] =
     [(Some (PStr ''book_progress''), Some (PInt 1), Some (PInt 3)),
      (Some (PStr ''book_complete''), Some (PInt 1), Some (PInt 3)),
      (Some (PStr ''book_progress''), Some (PInt 2), Some (PInt 3)),
      (Some (PStr ''book_complete''), Some (PInt 2), Some (PInt 3)),
      (Some (PStr ''book_progress''), Some (PInt 3), Some (PInt 3)),
      (Some (PStr ''book_complete''), Some (PInt 3), Some (PInt 3))]"
  by (simp add: item_tags_def upt_rec)



subsection \<open>The streamed events\<close>

text \<open>
  C5.  When no fatal failure occurs, the streamed events are, by their \<open>event\<close>,
  \<open>current\<close> and \<open>total\<close> entries: \<open>started\<close>, which carries \<open>total_books = N\<close>; then
  for each item number from 1 to N in order a \<open>book_progress\<close> and a \<open>book_complete\<close>
  with that number and total N; then \<open>completed\<close>.  When a fatal failure occurs, the
  stream ends with an \<open>error\<close> event and no event before it is \<open>completed\<close> or
  \<open>error\<close>.
\<close>

theorem streaming_event_sequence:
  "(\<not> fatal_failure cfg env db \<longrightarrow>
      (\<exists>listing. library env = Inr listing
         \<and> map tag (fst (scrape_and_save_streaming cfg env db)) =
             (Some (PStr ''started''), None, None)
             # item_tags (length listing) [1 ..< Suc (length listing)]
             @ [(Some (PStr ''completed''), None, None)]
         \<and> map_of (hd (fst (scrape_and_save_streaming cfg env db))) ''total_books''
             = Some (PInt (int (length listing)))))
   \<and> (fatal_failure cfg env db \<longrightarrow>
      (\<exists>pre msg. fst (scrape_and_save_streaming cfg env db) = pre @ [error_event msg]
         \<and> (\<forall>e \<in> set pre. \<not> terminal e)))"
proof (intro conjI impI)
  assume "\<not> fatal_failure cfg env db"
  then show "\<exists>listing. library env = Inr listing
         \<and> map tag (fst (scrape_and_save_streaming cfg env db)) =
             (Some (PStr ''started''), None, None)
             # item_tags (length listing) [1 ..< Suc (length listing)]
             @ [(Some (PStr ''completed''), None, None)]
         \<and> map_of (hd (fst (scrape_and_save_streaming cfg env db))) ''total_books''
             = Some (PInt (int (length listing)))"
    by (rule streaming_clean)
next
  assume "fatal_failure cfg env db"
  then show "\<exists>pre msg. fst (scrape_and_save_streaming cfg env db) = pre @ [error_event msg]
         \<and> (\<forall>e \<in> set pre. \<not> terminal e)"
    by (rule streaming_fatal)
qed

theorem streaming_event_sequence_witness:
  "map tag (fst (scrape_and_save_streaming default_config shelf_env (one_snapshot 10))) =
     [(Some (PStr ''started''), None, None),
      (Some (PStr ''book_progress''), Some (PInt 1), Some (PInt 3)),
      (Some (PStr ''book_complete''), Some (PInt 1), Some (PInt 3)),
      (Some (PStr ''book_progress''), Some (PInt 2), Some (PInt 3)),
      (Some (PStr ''book_complete''), Some (PInt 2), Some (PInt 3)),
      (Some (PStr ''book_progress''), Some (PInt 3), Some (PInt 3)),
      (Some (PStr ''book_complete''), Some (PInt 3), Some (PInt 3)),
      (Some (PStr ''completed''), None, None)]
   \<and> fst (scrape_and_save_streaming default_config twofa_env (one_snapshot 10))
       = [error_event (PStr msg_2fa)]"
proof -
  have "\<exists>listing. library shelf_env = Inr listing
         \<and> map tag (fst (scrape_and_save_streaming default_config shelf_env (one_snapshot 10))) =
             (Some (PStr ''started''), None, None)
             # item_tags (length listing) [1 ..< Suc (length listing)]
             @ [(Some (PStr ''completed''), None, None)]
         \<and> map_of (hd (fst (scrape_and_save_streaming default_config shelf_env (one_snapshot 10))))
               ''total_books'' = Some (PInt (int (length listing)))"
    using streaming_event_sequence [of default_config shelf_env "one_snapshot 10", THEN conjunct1]
          shelf_not_fatal
    by (rule mp)
  then obtain listing where l: "library shelf_env = Inr listing"
    and t: "map tag (fst (scrape_and_save_streaming default_config shelf_env (one_snapshot 10))) =
             (Some (PStr ''started''), None, None)
             # item_tags (length listing) [1 ..< Suc (length listing)]
             @ [(Some (PStr ''completed''), None, None)]"
    by (elim exE conjE)
  from l have "listing = shelf" by (simp add: shelf_library)
  with t have "map tag (fst (scrape_and_save_streaming default_config shelf_env (one_snapshot 10))) =
             (Some (PStr ''started''), None, None) # item_tags 3 [1 ..< Suc 3]
             @ [(Some (PStr ''completed''), None, None)]"
    by (simp only: shelf_length)
  moreover have "fst (scrape_and_save_streaming default_config twofa_env (one_snapshot 10))
       = [error_event (PStr msg_2fa)]"
    by (simp add: scrape_and_save_streaming_def ensure_login_def twofa_env_def shelf_env_def)
  ultimately show ?thesis
    by (simp only: tags_three) simp
qed

subsection \<open>Failures of single items\<close>



subsection \<open>Timestamps of the results\<close>

lemma streaming_last_completed:
  assumes "\<not> fatal_failure cfg env db"
  shows "\<exists>n st. last (fst (scrape_and_save_streaming cfg env db))
                  = completed_event n st (duration_seconds env) (finished_clock env)"
proof -
  from assms obtain listing where
    login: "ensure_login cfg env = Inr None" and lib: "library env = Inr listing"
    and loop: "snd (scrape_books cfg (item_at env) 0 listing (fresh_pass db)) = None"
    by (auto simp: fatal_failure_def split: sum.splits option.splits)
  obtain evs st e where
    run: "stream_books cfg (item_at env) (length listing) 0 listing (fresh_pass db) = (evs, st, e)"
    by (cases "stream_books cfg (item_at env) (length listing) 0 listing (fresh_pass db)") auto
  have "e = None"
    using loop run stream_books_state [of cfg "item_at env" 0 listing "fresh_pass db" "length listing"]
    by simp
  with run login lib have "fst (scrape_and_save_streaming cfg env db) =
               started_event (length listing) (started_clock env) # evs
               @ [completed_event (length listing) st (duration_seconds env) (finished_clock env)]"
    by (simp add: scrape_and_save_streaming_def fresh_pass_def)
  then have "last (fst (scrape_and_save_streaming cfg env db))
               = completed_event (length listing) st (duration_seconds env) (finished_clock env)"
    by simp
  then show ?thesis by (intro exI)
qed

lemma streaming_last_error:
  assumes "fatal_failure cfg env db"
  shows "\<exists>msg. last (fst (scrape_and_save_streaming cfg env db)) = error_event msg"
proof -
  from streaming_fatal [OF assms] obtain pre msg where
    "fst (scrape_and_save_streaming cfg env db) = pre @ [error_event msg]"
    by (elim exE conjE)
  then have "last (fst (scrape_and_save_streaming cfg env db)) = error_event msg" by simp
  then show ?thesis by (intro exI)
qed

lemma not_started_before [simp]:
  "event_name (book_progress_event idx n ttl asin) \<noteq> Some (PStr ''started'')"
  by (simp add: event_name_def book_progress_event_def)

lemma not_started_after [simp]:
  "event_name (book_complete_event idx n ttl asin pct ok err) \<noteq> Some (PStr ''started'')"
  by (simp add: event_name_def book_complete_event_def)

lemma not_started_error [simp]: "event_name (error_event msg) \<noteq> Some (PStr ''started'')"
  by (simp add: event_name_def error_event_def)

lemma not_started_completed [simp]:
  "event_name (completed_event n st d t) \<noteq> Some (PStr ''started'')"
  by (simp add: event_name_def completed_event_def)

lemma started_timestamp [simp]:
  "map_of (started_event n t) ''timestamp'' = Some (PTime t)"
  by (simp add: started_event_def)

lemma started_name [simp]: "event_name (started_event n t) = Some (PStr ''started'')"
  by (simp add: event_name_def started_event_def)

lemma stream_books_not_started:
  "stream_books cfg env n idx bs st = (evs, r) \<Longrightarrow>
     \<forall>e \<in> set evs. event_name e \<noteq> Some (PStr ''started'')"
proof (induction bs arbitrary: idx st evs r)
  case Nil
  then show ?case by simp
next
  case (Cons book rest)
  from Cons.prems show ?case
    by (auto simp: Let_def dest!: Cons.IH
          split: reader_outcome.splits option.splits prod.splits sum.splits)
qed

lemma streaming_started_timestamp:
  "\<forall>ev \<in> set (fst (scrape_and_save_streaming cfg env db)).
     event_name ev = Some (PStr ''started'') \<longrightarrow>
     map_of ev ''timestamp'' = Some (PTime (started_clock env))"
proof (cases "ensure_login cfg env")
  case (Inl msg)
  then show ?thesis by (simp add: scrape_and_save_streaming_def)
next
  case (Inr r)
  show ?thesis
  proof (cases r)
    case (Some e)
    with Inr show ?thesis by (simp add: scrape_and_save_streaming_def)
  next
    case None
    show ?thesis
    proof (cases "library env")
      case (Inl e)
      with Inr None show ?thesis by (simp add: scrape_and_save_streaming_def)
    next
      case lib: (Inr listing)
      obtain evs st e where
        run: "stream_books cfg (item_at env) (length listing) 0 listing (fresh_pass db) = (evs, st, e)"
        by (cases "stream_books cfg (item_at env) (length listing) 0 listing (fresh_pass db)") auto
      have quiet: "\<forall>ev \<in> set evs. event_name ev \<noteq> Some (PStr ''started'')"
        by (rule stream_books_not_started [OF run])
      show ?thesis
        using Inr None lib run quiet
        by (cases e) (simp_all add: scrape_and_save_streaming_def fresh_pass_def)
    qed
  qed
qed

lemma streaming_first_started:
  assumes "\<not> fatal_failure cfg env db"
  shows "\<exists>n. hd (fst (scrape_and_save_streaming cfg env db)) = started_event n (started_clock env)"
proof -
  from assms obtain listing where
    login: "ensure_login cfg env = Inr None" and lib: "library env = Inr listing"
    by (auto simp: fatal_failure_def split: sum.splits option.splits)
  obtain evs st e where
    run: "stream_books cfg (item_at env) (length listing) 0 listing (fresh_pass db) = (evs, st, e)"
    by (cases "stream_books cfg (item_at env) (length listing) 0 listing (fresh_pass db)") auto
  have "hd (fst (scrape_and_save_streaming cfg env db))
          = started_event (length listing) (started_clock env)"
    using login lib run by (cases e) (simp_all add: scrape_and_save_streaming_def fresh_pass_def)
  then show ?thesis by (intro exI)
qed

text \<open>
  C9, as the code has it.  The summary of the batch pass always has a \<open>timestamp\<close>,
  on success and on failure.  Every \<open>started\<close> event of the stream has a \<open>timestamp\<close>,
  and a stream without a fatal failure begins with that event.  The last streamed
  event is \<open>completed\<close> with a \<open>timestamp\<close> when no fatal failure occurs; after a fatal
  failure it is \<open>error\<close>, whose entries are \<open>event\<close>, \<open>message\<close> and \<open>recoverable\<close> and
  no \<open>timestamp\<close>.
\<close>

theorem result_timestamps:
  "map_of (fst (scrape_and_save cfg env db)) ''timestamp'' = Some (PTime (finished_clock env))
   \<and> (\<forall>ev \<in> set (fst (scrape_and_save_streaming cfg env db)).
        event_name ev = Some (PStr ''started'') \<longrightarrow>
        map_of ev ''timestamp'' = Some (PTime (started_clock env)))
   \<and> (\<not> fatal_failure cfg env db \<longrightarrow>
        event_name (hd (fst (scrape_and_save_streaming cfg env db))) = Some (PStr ''started'')
        \<and> map_of (hd (fst (scrape_and_save_streaming cfg env db))) ''timestamp''
            = Some (PTime (started_clock env))
        \<and> event_name (last (fst (scrape_and_save_streaming cfg env db))) = Some (PStr ''completed'')
        \<and> map_of (last (fst (scrape_and_save_streaming cfg env db))) ''timestamp''
            = Some (PTime (finished_clock env)))
   \<and> (fatal_failure cfg env db \<longrightarrow>
        event_name (last (fst (scrape_and_save_streaming cfg env db))) = Some (PStr ''error'')
        \<and> map fst (last (fst (scrape_and_save_streaming cfg env db)))
            = [''event'', ''message'', ''recoverable'']
        \<and> map_of (last (fst (scrape_and_save_streaming cfg env db))) ''timestamp'' = None)"
proof (intro conjI impI)
  show "map_of (fst (scrape_and_save cfg env db)) ''timestamp'' = Some (PTime (finished_clock env))"
    by (rule batch_timestamp)
next
  show "\<forall>ev \<in> set (fst (scrape_and_save_streaming cfg env db)).
        event_name ev = Some (PStr ''started'') \<longrightarrow>
        map_of ev ''timestamp'' = Some (PTime (started_clock env))"
    by (rule streaming_started_timestamp)
next
  assume clean: "\<not> fatal_failure cfg env db"
  from streaming_first_started [OF clean] obtain k where
    f: "hd (fst (scrape_and_save_streaming cfg env db)) = started_event k (started_clock env)"
    by (elim exE)
  show "event_name (hd (fst (scrape_and_save_streaming cfg env db))) = Some (PStr ''started'')"
    by (simp add: f)
  show "map_of (hd (fst (scrape_and_save_streaming cfg env db))) ''timestamp''
            = Some (PTime (started_clock env))"
    by (simp add: f)
  from streaming_last_completed [OF clean] obtain n st where
    l: "last (fst (scrape_and_save_streaming cfg env db))
          = completed_event n st (duration_seconds env) (finished_clock env)"
    by (elim exE)
  show "event_name (last (fst (scrape_and_save_streaming cfg env db))) = Some (PStr ''completed'')"
    by (simp add: l event_name_def completed_event_def)
  show "map_of (last (fst (scrape_and_save_streaming cfg env db))) ''timestamp''
            = Some (PTime (finished_clock env))"
    by (simp add: l completed_event_def)
next
  assume "fatal_failure cfg env db"
  from streaming_last_error [OF this] obtain msg where
    l: "last (fst (scrape_and_save_streaming cfg env db)) = error_event msg"
    by (elim exE)
  show "event_name (last (fst (scrape_and_save_streaming cfg env db))) = Some (PStr ''error'')"
    by (simp add: l event_name_def error_event_def)
  show "map fst (last (fst (scrape_and_save_streaming cfg env db)))
            = [''event'', ''message'', ''recoverable'']"
    by (simp add: l error_event_def)
  show "map_of (last (fst (scrape_and_save_streaming cfg env db))) ''timestamp'' = None"
    by (simp add: l error_event_def)
qed

theorem result_timestamps_witness:
  "map_of (fst (scrape_and_save default_config twofa_env (one_snapshot 10))) ''timestamp''
     = Some (PTime (noon 9))
   \<and> map fst (last (fst (scrape_and_save_streaming default_config twofa_env (one_snapshot 10))))
       = [''event'', ''message'', ''recoverable'']
   \<and> map_of (hd (fst (scrape_and_save_streaming default_config shelf_env (one_snapshot 10))))
        ''timestamp'' = Some (PTime (noon 2))
   \<and> map_of (last (fst (scrape_and_save_streaming default_config shelf_env (one_snapshot 10))))
        ''timestamp'' = Some (PTime (noon 9))"
  using result_timestamps [of default_config twofa_env "one_snapshot 10"]
        result_timestamps [of default_config shelf_env "one_snapshot 10"]
        twofa_fatal [of default_config "one_snapshot 10"] shelf_not_fatal
  by (simp add: twofa_env_def shelf_env_def)

text \<open>
  The claim that every terminal event of the stream has a timestamp fails on the pass
  that meets a verification page: its only event is the error event.
\<close>

theorem streaming_error_without_timestamp:
  "fst (scrape_and_save_streaming default_config twofa_env (one_snapshot 10))
     = [[(''event'', PStr ''error''), (''message'', PStr msg_2fa), (''recoverable'', PBool False)]]
   \<and> map_of (last (fst (scrape_and_save_streaming default_config twofa_env (one_snapshot 10))))
        ''timestamp'' = None"
  by (simp add: scrape_and_save_streaming_def ensure_login_def twofa_env_def shelf_env_def
        error_event_def)

subsection \<open>Positions from the library view\<close>

lemma library_books_fixed:
  "\<forall>b \<in> set (library_books items).
     js_totalPages b = Some (Fin 100) \<and> js_currentPosition b = Some (js_percentComplete b)"
  by (induction items) (auto simp: Let_def)

lemma library_books_current_null:
  "\<forall>b \<in> set (library_books_current items). js_totalPages b = None \<and> js_currentPosition b = None"
  by (induction items) (auto simp: Let_def)

lemma scrape_books_ignores_library_position:
  "scrape_books cfg env i
     (map (\<lambda>b. b\<lparr>book_currentPosition := f b, book_percentComplete := g b\<rparr>) bs) st
   = scrape_books cfg env i bs st"
  by (induction bs arbitrary: i st)
     (simp_all add: Let_def save_progress_def split: reader_outcome.splits option.splits
        prod.splits sum.splits)

lemma scrape_and_save_ignores_library_position:
  "scrape_and_save cfg
     (env\<lparr>library := Inr (map (\<lambda>b. b\<lparr>book_currentPosition := f b, book_percentComplete := g b\<rparr>)
                              listing)\<rparr>) db
   = scrape_and_save cfg (env\<lparr>library := Inr listing\<rparr>) db"
proof -
  have "ensure_login cfg (env\<lparr>library := Inr (map (\<lambda>b. b\<lparr>book_currentPosition := f b,
                                  book_percentComplete := g b\<rparr>) listing)\<rparr>)
        = ensure_login cfg (env\<lparr>library := Inr listing\<rparr>)"
    by (simp add: ensure_login_def split: sum.splits login_status.splits)
  then show ?thesis
    by (simp add: scrape_and_save_def scrape_books_ignores_library_position
          split: sum.splits option.splits prod.splits)
qed

lemma store_books_without_position:
  "\<forall>b \<in> set bs. book_currentPosition b = None \<Longrightarrow>
     \<exists>db' e. store_books cfg env i bs db = (db', e)
       \<and> reading_progress db' = reading_progress db \<and> daily_stats db' = daily_stats db"
proof (induction bs arbitrary: i db)
  case Nil
  then show ?case by simp
next
  case (Cons book rest)
  show ?case
  proof (cases "upsert_book db (upsert_stamp (env i)) (book_asin book) (book_title book)
                  (book_authors book) (book_totalPages book) (book_coverUrl book)")
    case (Inl e)
    then show ?thesis by simp
  next
    case (Inr db1)
    note keeps = upsert_book_keeps [OF Inr]
    from Cons.prems have "\<forall>b \<in> set rest. book_currentPosition b = None" by simp
    from Cons.IH [OF this, of "Suc i" db1] obtain db' e where
      "store_books cfg env (Suc i) rest db1 = (db', e)"
      "reading_progress db' = reading_progress db1" "daily_stats db' = daily_stats db1"
      by (elim exE conjE)
    with Cons.prems Inr keeps show ?thesis by simp
  qed
qed

lemma current_pass_without_position:
  assumes "library env = Inr listing" and "\<forall>b \<in> set listing. book_currentPosition b = None"
  shows "reading_progress (snd (scrape_and_save_current cfg env db)) = reading_progress db
         \<and> daily_stats (snd (scrape_and_save_current cfg env db)) = daily_stats db"
proof -
  from store_books_without_position [OF assms(2), of cfg "item_at env" 0 db]
  obtain db' e where s: "store_books cfg (item_at env) 0 listing db = (db', e)"
    and r: "reading_progress db' = reading_progress db" and d: "daily_stats db' = daily_stats db"
    by (elim exE conjE)
  show ?thesis
    using assms(1) s r d
    by (simp add: scrape_and_save_current_def split: sum.splits option.splits)
qed

text \<open>
  C10, as the code has it.  Every book the library script of the archived module
  returns has \<open>totalPages = 100\<close> and \<open>currentPosition = percentComplete\<close>.  The pass of
  that module does not read these two entries of a book: whatever they are, it returns
  the same summary and the same ledger, so the positions it records are those of the
  reader view.  The library script of the current module returns \<open>null\<close> for both
  \<open>totalPages\<close> and \<open>currentPosition\<close>, and its library-only pass records nothing
  and leaves the daily aggregate alone when no book has a \<open>currentPosition\<close>.
\<close>

theorem library_view_positions:
  "(\<forall>b \<in> set (library_books items).
      js_totalPages b = Some (Fin 100) \<and> js_currentPosition b = Some (js_percentComplete b))
   \<and> scrape_and_save cfg
        (env\<lparr>library := Inr (map (\<lambda>b. b\<lparr>book_currentPosition := f b, book_percentComplete := g b\<rparr>)
                                 listing)\<rparr>) db
      = scrape_and_save cfg (env\<lparr>library := Inr listing\<rparr>) db
   \<and> (\<forall>b \<in> set (library_books_current items).
        js_totalPages b = None \<and> js_currentPosition b = None)
   \<and> (library env = Inr listing \<and> (\<forall>b \<in> set listing. book_currentPosition b = None) \<longrightarrow>
        reading_progress (snd (scrape_and_save_current cfg env db)) = reading_progress db
        \<and> daily_stats (snd (scrape_and_save_current cfg env db)) = daily_stats db)"
proof (intro conjI impI)
  show "\<forall>b \<in> set (library_books items).
      js_totalPages b = Some (Fin 100) \<and> js_currentPosition b = Some (js_percentComplete b)"
    by (rule library_books_fixed)
  show "scrape_and_save cfg
        (env\<lparr>library := Inr (map (\<lambda>b. b\<lparr>book_currentPosition := f b, book_percentComplete := g b\<rparr>)
                                 listing)\<rparr>) db
      = scrape_and_save cfg (env\<lparr>library := Inr listing\<rparr>) db"
    by (rule scrape_and_save_ignores_library_position)
  show "\<forall>b \<in> set (library_books_current items).
        js_totalPages b = None \<and> js_currentPosition b = None"
    by (rule library_books_current_null)
  assume a: "library env = Inr listing \<and> (\<forall>b \<in> set listing. book_currentPosition b = None)"
  from a have l: "library env = Inr listing" and n: "\<forall>b \<in> set listing. book_currentPosition b = None"
    by simp_all
  from current_pass_without_position [OF l n, of cfg db]
  show "reading_progress (snd (scrape_and_save_current cfg env db)) = reading_progress db"
    and "daily_stats (snd (scrape_and_save_current cfg env db)) = daily_stats db"
    by simp_all
qed

lemma one_item_books:
  "library_books [one_item] =
     [\<lparr> js_asin = ''B00TEST001'', js_title = ''The Great Book'', js_authors = [''John Author''],
        js_coverUrl = None, js_totalPages = Some (Fin 100), js_currentPosition = Some (Fin 45),
        js_percentComplete = Fin 45 \<rparr>]"
  by code_simp

lemma one_item_books_current:
  "library_books_current [one_item] =
     [\<lparr> js_asin = ''B00TEST001'', js_title = ''The Great Book'', js_authors = [''John Author''],
        js_coverUrl = None, js_totalPages = None, js_currentPosition = None,
        js_percentComplete = Fin 45 \<rparr>]"
  by code_simp

theorem library_view_positions_witness:
  "map (\<lambda>b. (js_totalPages b, js_currentPosition b, js_percentComplete b))
     (library_books [one_item]) = [(Some (Fin 100), Some (Fin 45), Fin 45)]
   \<and> map (\<lambda>b. (js_totalPages b, js_currentPosition b, js_percentComplete b))
       (library_books_current [one_item]) = [(None, None, Fin 45)]
   \<and> reading_progress (snd (scrape_and_save_current default_config
                               (shelf_env\<lparr>library := Inr one_item_listing\<rparr>) (one_snapshot 10)))
       = reading_progress (one_snapshot 10)"
proof -
  note inst = library_view_positions [where items = "[one_item]" and cfg = default_config
          and env = "shelf_env\<lparr>library := Inr one_item_listing\<rparr>" and listing = one_item_listing
          and db = "one_snapshot 10" and f = "\<lambda>b. None" and g = "\<lambda>b. PyInt 0"]
  have a: "reading_progress (snd (scrape_and_save_current default_config
                               (shelf_env\<lparr>library := Inr one_item_listing\<rparr>) (one_snapshot 10)))
       = reading_progress (one_snapshot 10)"
    using inst [THEN conjunct2, THEN conjunct2, THEN conjunct2]
    by (simp add: one_item_listing_def)
  have b: "map (\<lambda>b. (js_totalPages b, js_currentPosition b, js_percentComplete b))
     (library_books [one_item]) = [(Some (Fin 100), Some (Fin 45), Fin 45)]"
    by (simp only: one_item_books) simp
  have c: "map (\<lambda>b. (js_totalPages b, js_currentPosition b, js_percentComplete b))
       (library_books_current [one_item]) = [(None, None, Fin 45)]"
    by (simp only: one_item_books_current) simp
  from b c a show ?thesis by (intro conjI)
qed

text \<open>
  No pass feeds the percentage of the library view into the ledger as a position: the
  library-only pass over a page showing 45 percent appends no snapshot and leaves
  \<open>daily_stats\<close> as it was, and the archived pass over a library showing 45, 7 and 0
  percent records the position 25 the reader view found.
\<close>

theorem library_position_not_recorded:
  "reading_progress (snd (scrape_and_save_current default_config
                            (shelf_env\<lparr>library := Inr one_item_listing\<rparr>) (one_snapshot 10)))
     = reading_progress (one_snapshot 10)
   \<and> daily_stats (snd (scrape_and_save_current default_config
                            (shelf_env\<lparr>library := Inr one_item_listing\<rparr>) (one_snapshot 10)))
     = daily_stats (one_snapshot 10)
   \<and> map position (reading_progress (snd (scrape_and_save default_config shelf_env (one_snapshot 10))))
     = [10, 25]"
proof -
  have a: "reading_progress (snd (scrape_and_save_current default_config
                            (shelf_env\<lparr>library := Inr one_item_listing\<rparr>) (one_snapshot 10)))
     = reading_progress (one_snapshot 10)
   \<and> daily_stats (snd (scrape_and_save_current default_config
                            (shelf_env\<lparr>library := Inr one_item_listing\<rparr>) (one_snapshot 10)))
     = daily_stats (one_snapshot 10)"
    by (rule current_pass_without_position [of _ one_item_listing])
       (simp_all add: one_item_listing_def)
  from batch_clean [OF shelf_login shelf_library shelf_safe]
  obtain db' r where s: "scrape_and_save default_config shelf_env (one_snapshot 10) = (r, db')"
    and rows: "reading_progress db' = reading_progress (one_snapshot 10)
                 @ new_rows (item_at shelf_env) 0 shelf"
    by (elim exE conjE)
  have "map position (reading_progress (snd (scrape_and_save default_config shelf_env (one_snapshot 10))))
     = [10, 25]"
    by (simp add: s rows shelf_rows) (simp add: one_snapshot_def)
  with a show ?thesis by simp
qed

end
